theory Spec2Isabelle
  imports Main "HOL-Library.AList"
begin

section \<open>JavaScript values and objects\<close>

text \<open>
  Property values are typed \<^verbatim>\<open>any\<close> in the source. Primitives carry their value; arrays
  and objects carry a reference (their identity) next to their contents, because
  \<^verbatim>\<open>new Set(v)\<close> and \<^verbatim>\<open>===\<close> compare them by reference. The code under study never
  mutates a property value, so the contents can travel with the reference. \<open>JNum\<close>
  covers the integer-valued numbers.

  An object used as a dictionary is the association list of its own properties in
  insertion order, which is the enumeration order of \<^verbatim>\<open>Object.entries\<close> for keys that
  are not array indices: \<^verbatim>\<open>o[k] = v\<close> is \<open>AList.update k v\<close> (in place when the key
  exists, appended otherwise), \<^verbatim>\<open>delete o[k]\<close> is \<open>AList.delete k\<close>, and \<open>map_of o k\<close>
  is the own property \<open>k\<close>, \<open>None\<close> when there is none. What \<^verbatim>\<open>o[k]\<close> reads where
  there is no own property depends on the prototype of \<open>o\<close>, see below.
\<close>

datatype jsval =
    JUndefined
  | JNull
  | JBool bool
  | JNum int
  | JStr string
  | JArr nat "jsval list"
  | JObj nat "(string \<times> jsval) list"

type_synonym jsobj = "(string \<times> jsval) list"

datatype error =
    TypeError string
  | ImperativeError string
  | ExternalError string

text \<open>SameValueZero, the equality of \<^verbatim>\<open>Set\<close>: by value on primitives, by reference on
  arrays and objects.\<close>

primrec identityOf :: "jsval \<Rightarrow> jsval" where
  "identityOf JUndefined = JUndefined"
| "identityOf JNull = JNull"
| "identityOf (JBool b) = JBool b"
| "identityOf (JNum n) = JNum n"
| "identityOf (JStr s) = JStr s"
| "identityOf (JArr a xs) = JArr a []"
| "identityOf (JObj a ps) = JObj a []"

definition sameValueZero :: "jsval \<Rightarrow> jsval \<Rightarrow> bool" where
  "sameValueZero x y = (identityOf x = identityOf y)"

text \<open>\<^verbatim>\<open>new Set(vs)\<close>: the elements of \<open>vs\<close> in order, each kept unless an element that
  is the same by SameValueZero is already there. Its length is \<^verbatim>\<open>.size\<close>.\<close>

definition setAdd :: "jsval list \<Rightarrow> jsval \<Rightarrow> jsval list" where
  "setAdd s x = (if list_ex (\<lambda>y. sameValueZero y x) s then s else s @ [x])"

definition newSet :: "jsval list \<Rightarrow> jsval list" where
  "newSet vs = fold (\<lambda>x s. setAdd s x) vs []"

text \<open>
  An object that the literal \<^verbatim>\<open>{}\<close> creates inherits the members of
  \<^verbatim>\<open>Object.prototype\<close>. Reading \<^verbatim>\<open>o[k]\<close> where \<open>k\<close> is not an own property gives the
  inherited member when \<open>k\<close> is one of the names below: a function, and for
  \<^verbatim>\<open>__proto__\<close> the prototype object. Such a value is not \<^verbatim>\<open>undefined\<close>, it is truthy,
  and it is not iterable, so that spreading it into an array throws a TypeError. For
  every other name the read gives \<^verbatim>\<open>undefined\<close>.
\<close>

definition objectPrototypeMembers :: "string list" where
  "objectPrototypeMembers =
     [''constructor'', ''__defineGetter__'', ''__defineSetter__'', ''hasOwnProperty'',
      ''__lookupGetter__'', ''__lookupSetter__'', ''isPrototypeOf'', ''propertyIsEnumerable'',
      ''toString'', ''valueOf'', ''__proto__'', ''toLocaleString'']"

definition inheritedMember :: "string \<Rightarrow> bool" where
  "inheritedMember k = (k \<in> set objectPrototypeMembers)"

text \<open>\<^verbatim>\<open>o[k] === undefined\<close> on such an object.\<close>

definition readsUndefined :: "jsobj \<Rightarrow> string \<Rightarrow> bool" where
  "readsUndefined obj k =
     (case map_of obj k of None \<Rightarrow> \<not> inheritedMember k | Some v \<Rightarrow> v = JUndefined)"

text \<open>\<^verbatim>\<open>o[k] = v\<close> on such an object. The name \<^verbatim>\<open>__proto__\<close>, unless it is an own
  property, is the accessor of the prototype: the assignment stores no own property.
  (It replaces the prototype when \<open>v\<close> is an object or \<^verbatim>\<open>null\<close>, and does nothing for
  any other value; what later reads find in a replaced prototype is outside the
  model.)\<close>

definition assignProperty :: "string \<Rightarrow> 'v \<Rightarrow> (string \<times> 'v) list \<Rightarrow> (string \<times> 'v) list" where
  "assignProperty k v obj =
     (if k = ''__proto__'' \<and> map_of obj k = None then obj else AList.update k v obj)"

text \<open>A loop whose body may throw: the first error ends it.\<close>

fun foldE :: "('a \<Rightarrow> 's \<Rightarrow> error + 's) \<Rightarrow> 'a list \<Rightarrow> 's \<Rightarrow> error + 's" where
  "foldE f [] s = Inr s"
| "foldE f (x # xs) s = (case f x s of Inl e \<Rightarrow> Inl e | Inr s' \<Rightarrow> foldE f xs s')"

section \<open>Strings of values\<close>

text \<open>The decimal digits of a number, as \<^verbatim>\<open>Number.prototype.toString\<close> prints an integer.\<close>

function showNat :: "nat \<Rightarrow> string" where
  "showNat n = (if n < 10 then [char_of (48 + n)] else showNat (n div 10) @ [char_of (48 + n mod 10)])"
  by pat_completeness auto
termination
  by (relation "measure id") auto

definition showInt :: "int \<Rightarrow> string" where
  "showInt i = (if i < 0 then CHR ''-'' # showNat (nat (- i)) else showNat (nat i))"

text \<open>The abstract operation ToString, as string concatenation applies it; an array
  is its elements joined by commas, where \<^verbatim>\<open>null\<close> and \<^verbatim>\<open>undefined\<close> give the empty
  string.\<close>

fun ToString :: "jsval \<Rightarrow> string" and joinElements :: "jsval list \<Rightarrow> string" where
  "ToString JUndefined = ''undefined''"
| "ToString JNull = ''null''"
| "ToString (JBool b) = (if b then ''true'' else ''false'')"
| "ToString (JNum n) = showInt n"
| "ToString (JStr s) = s"
| "ToString (JArr a xs) = joinElements xs"
| "ToString (JObj a ps) = ''[object Object]''"
| "joinElements [] = []"
| "joinElements (x # xs) =
     (if x = JUndefined \<or> x = JNull then [] else ToString x)
     @ (if xs = [] then [] else CHR '','' # joinElements xs)"

text \<open>The method call \<^verbatim>\<open>value.toString()\<close> throws on \<^verbatim>\<open>null\<close> and \<^verbatim>\<open>undefined\<close>. (An
  object is taken to have no \<^verbatim>\<open>toString\<close> property of its own.)\<close>

definition toStringMethod :: "jsval \<Rightarrow> error + string" where
  "toStringMethod v =
     (if v = JUndefined
      then Inl (TypeError ''Cannot read properties of undefined (reading toString)'')
      else if v = JNull
      then Inl (TypeError ''Cannot read properties of null (reading toString)'')
      else Inr (ToString v))"

definition startsWith :: "string \<Rightarrow> string \<Rightarrow> bool" where
  "startsWith s p = (take (length p) s = p)"

section \<open>The data model\<close>

text \<open>\<^verbatim>\<open>IConfigProfile\<close>. The object that \<^verbatim>\<open>lodash.set\<close> creates for a missing path has
  neither \<^verbatim>\<open>type\<close> nor \<^verbatim>\<open>secure\<close>, hence the options.\<close>

record profile =
  type :: "string option"
  properties :: jsobj
  secure :: "string list option"

type_synonym profiles = "(string \<times> profile) list"

text \<open>\<^verbatim>\<open>IConfig\<close>, with the \<^verbatim>\<open>autoStore\<close> flag that \<^verbatim>\<open>build\<close> and \<^verbatim>\<open>convert\<close> set
  (\<open>None\<close> while it is unset). The document's own \<^verbatim>\<open>secure\<close> and \<^verbatim>\<open>properties\<close> are
  \<open>configSecure\<close> and \<open>configProperties\<close> here, to tell them from a profile's.\<close>

record config =
  defaults :: "(string \<times> string) list"
  profiles :: profiles
  plugins :: "string list"
  configSecure :: "string list"
  configProperties :: jsobj
  autoStore :: "bool option"

text \<open>A failure record \<^verbatim>\<open>{ name?, type, error }\<close> and \<^verbatim>\<open>IConfigConvertResult\<close>.\<close>

record failure =
  failedName :: "string option"
  failedType :: string
  failedError :: error

record convertResult =
  config :: config
  profilesConverted :: "(string \<times> string list) list"
  profilesFailed :: "failure list"

text \<open>Modelled from the spec: \<^verbatim>\<open>Config.empty()\<close> is not part of the sources; the document
  it returns has no defaults, profiles, plugins or secure entries yet.\<close>

definition emptyConfig :: config where
  "emptyConfig =
     \<lparr>defaults = [], profiles = [], plugins = [], configSecure = [], configProperties = [],
      autoStore = None\<rparr>"

section \<open>ConfigBuilder.hoistTemplateProperties\<close>

text \<open>The children are the profiles whose \<^verbatim>\<open>type\<close> differs from the base profile type
  (\<^verbatim>\<open>Object.values(profiles).filter(({ type }) => type !== baseProfileType)\<close>).\<close>

definition isChild :: "string \<Rightarrow> profile \<Rightarrow> bool" where
  "isChild baseProfileType p = (type p \<noteq> Some baseProfileType)"

definition childProfiles :: "profiles \<Rightarrow> string \<Rightarrow> profile list" where
  "childProfiles ps baseProfileType = filter (isChild baseProfileType) (map snd ps)"

text \<open>\<^verbatim>\<open>flattenedProps[k] = [...(flattenedProps[k] || []), v]\<close>, where \<^verbatim>\<open>flattenedProps\<close>
  starts as \<^verbatim>\<open>{}\<close>. An own property is a list (truthy, also when empty). Where there
  is none and \<open>k\<close> names a member of \<^verbatim>\<open>Object.prototype\<close>, the inherited member is read
  and the spread throws; the assignment is not reached.\<close>

definition addFlattened :: "string \<times> jsval \<Rightarrow> (string \<times> jsval list) list \<Rightarrow> error + (string \<times> jsval list) list" where
  "addFlattened kv fl =
     (case map_of fl (fst kv) of
        Some vs \<Rightarrow> Inr (AList.update (fst kv) (vs @ [snd kv]) fl)
      | None \<Rightarrow>
          if inheritedMember (fst kv)
          then Inl (TypeError ''flattenedProps[k] is not iterable'')
          else Inr (AList.update (fst kv) [snd kv] fl))"

text \<open>The two nested loops over the children and their properties.\<close>

definition flattenProps :: "jsobj list \<Rightarrow> error + (string \<times> jsval list) list" where
  "flattenProps pss = foldE (\<lambda>props fl. foldE addFlattened props fl) pss []"

text \<open>\<^verbatim>\<open>v.length > 1 && (new Set(v)).size === 1\<close>\<close>

definition isDuplicate :: "jsval list \<Rightarrow> bool" where
  "isDuplicate v = (length v > 1 \<and> length (newSet v) = 1)"

definition duplicateProps :: "(string \<times> jsval list) list \<Rightarrow> string list" where
  "duplicateProps fl = map fst (filter (\<lambda>kv. isDuplicate (snd kv)) fl)"

text \<open>\<^verbatim>\<open>{ [propName]: v, ...props }\<close>: the new key comes first, and a value that \<open>props\<close>
  already has under that key replaces \<open>v\<close>.\<close>

definition spreadAfter :: "string \<Rightarrow> jsval \<Rightarrow> jsobj \<Rightarrow> jsobj" where
  "spreadAfter propName v props =
     (propName, (case map_of props propName of None \<Rightarrow> v | Some w \<Rightarrow> w)) # AList.delete propName props"

definition deleteFromChild :: "string \<Rightarrow> string \<Rightarrow> profile \<Rightarrow> profile" where
  "deleteFromChild baseProfileType propName p =
     (if isChild baseProfileType p then p\<lparr>properties := AList.delete propName (properties p)\<rparr> else p)"

text \<open>One round of the last loop. \<^verbatim>\<open>flattenedProps[propName][0]\<close> is \<^verbatim>\<open>undefined\<close> for
  an empty list. Where no profile is stored under the base profile type,
  \<^verbatim>\<open>profiles[baseProfileType]\<close> is \<^verbatim>\<open>undefined\<close> and reading its \<^verbatim>\<open>properties\<close> throws a
  TypeError; unless the base profile type names a member of \<^verbatim>\<open>Object.prototype\<close>: then
  the new \<^verbatim>\<open>properties\<close> are assigned to that member, outside the profiles, and only the
  children change.\<close>

definition hoistOne :: "string \<Rightarrow> (string \<times> jsval list) list \<Rightarrow> string \<Rightarrow> profiles \<Rightarrow> error + profiles" where
  "hoistOne baseProfileType fl propName ps =
     (case map_of fl propName of
        None \<Rightarrow> Inl (TypeError ''Cannot read properties of undefined'')
      | Some vs \<Rightarrow>
          (case map_of ps baseProfileType of
             None \<Rightarrow>
               if inheritedMember baseProfileType
               then Inr (map (map_prod id (deleteFromChild baseProfileType propName)) ps)
               else Inl (TypeError ''Cannot read properties of undefined'')
           | Some b \<Rightarrow>
               Inr (map (map_prod id (deleteFromChild baseProfileType propName))
                      (AList.update baseProfileType
                         (b\<lparr>properties :=
                              spreadAfter propName (case vs of [] \<Rightarrow> JUndefined | x # _ \<Rightarrow> x) (properties b)\<rparr>)
                         ps))))"

definition hoistTemplateProperties :: "profiles \<Rightarrow> string \<Rightarrow> error + (profiles \<times> string list)" where
  "hoistTemplateProperties ps baseProfileType =
     (case flattenProps (map properties (childProfiles ps baseProfileType)) of
        Inl e \<Rightarrow> Inl e
      | Inr flattenedProps \<Rightarrow>
          (let dups = duplicateProps flattenedProps
           in case foldE (hoistOne baseProfileType flattenedProps) dups ps of
                Inl e \<Rightarrow> Inl e
              | Inr ps' \<Rightarrow> Inr (ps', dups)))"

section \<open>ConfigBuilder.convertPropNames\<close>

definition nameConversions :: "(string \<times> string) list" where
  "nameConversions = [(''hostname'', ''host''), (''username'', ''user''), (''pass'', ''password'')]"

text \<open>The inner loop over \<open>nameConversions\<close>: the first rule whose old name is the given
  name, where the loop breaks.\<close>

fun firstConversion :: "string \<Rightarrow> (string \<times> string) list \<Rightarrow> (string \<times> string) option" where
  "firstConversion n [] = None"
| "firstConversion n ((oldPropName, newPropName) # rest) =
     (if n = oldPropName then Some (oldPropName, newPropName) else firstConversion n rest)"

text \<open>\<^verbatim>\<open>profPropsToConvert\<close>: the replacements recorded while the properties are enumerated.\<close>

fun profPropsToConvert :: "jsobj \<Rightarrow> (string \<times> string \<times> jsval) list" where
  "profPropsToConvert [] = []"
| "profPropsToConvert ((currPropName, currPropVal) # rest) =
     (case firstConversion currPropName nameConversions of
        None \<Rightarrow> profPropsToConvert rest
      | Some (oldPropName, newPropName) \<Rightarrow> (oldPropName, newPropName, currPropVal) # profPropsToConvert rest)"

text \<open>\<^verbatim>\<open>delete currProps[oldPropName]; currProps[newPropName] = propValue;\<close>\<close>

definition applyConversion :: "string \<times> string \<times> jsval \<Rightarrow> jsobj \<Rightarrow> jsobj" where
  "applyConversion c currProps =
     (case c of (oldPropName, newPropName, propValue) \<Rightarrow>
        AList.update newPropName propValue (AList.delete oldPropName currProps))"

definition convertProperties :: "jsobj \<Rightarrow> jsobj" where
  "convertProperties currProps = fold applyConversion (profPropsToConvert currProps) currProps"

text \<open>The loop over the secure names replaces each entry in place, by index.\<close>

definition convertSecureName :: "string \<Rightarrow> string" where
  "convertSecureName s =
     (case firstConversion s nameConversions of None \<Rightarrow> s | Some (oldPropName, newPropName) \<Rightarrow> newPropName)"

text \<open>One profile. Reading \<^verbatim>\<open>currSecProps.length\<close> throws a TypeError when the profile has
  no \<^verbatim>\<open>secure\<close> list; the properties have been renamed by then.\<close>

definition convertProfilePropNames :: "profile \<Rightarrow> error + profile" where
  "convertProfilePropNames p =
     (case secure p of
        None \<Rightarrow> Inl (TypeError ''Cannot read properties of undefined (reading length)'')
      | Some currSecProps \<Rightarrow>
          Inr (p\<lparr>properties := convertProperties (properties p),
                 secure := Some (map convertSecureName currSecProps)\<rparr>))"

fun convertProfilesPropNames :: "profiles \<Rightarrow> error + profiles" where
  "convertProfilesPropNames [] = Inr []"
| "convertProfilesPropNames ((currProfNm, p) # rest) =
     (case convertProfilePropNames p of
        Inl e \<Rightarrow> Inl e
      | Inr p' \<Rightarrow>
          (case convertProfilesPropNames rest of
             Inl e \<Rightarrow> Inl e
           | Inr rest' \<Rightarrow> Inr ((currProfNm, p') # rest')))"

definition convertPropNames :: "convertResult \<Rightarrow> error + convertResult" where
  "convertPropNames conversionResult =
     (case convertProfilesPropNames (profiles (config conversionResult)) of
        Inl e \<Rightarrow> Inl e
      | Inr ps \<Rightarrow> Inr (conversionResult\<lparr>config := (config conversionResult)\<lparr>profiles := ps\<rparr>\<rparr>))"

section \<open>ConfigBuilder.convert\<close>

text \<open>
  The collaborators of \<^verbatim>\<open>convert\<close>, none of which is part of the sources under study:
  the directory listings and file readers of \<^verbatim>\<open>ProfileIO\<close> for the given root
  directory (keyed by profile type and name rather than by the joined path), the
  credential manager's \<^verbatim>\<open>load\<close> (keyed by profile type, profile name and property name,
  from which \<^verbatim>\<open>getProfilePropertyKey\<close> derives its key), \<^verbatim>\<open>JSON.parse\<close>,
  \<^verbatim>\<open>ProfileUtils.getProfileMapKey\<close> and the constant
  \<^verbatim>\<open>ProfilesConstants.PROFILES_OPTION_SECURELY_STORED\<close>. Each call that can throw returns
  a sum.
\<close>

record legacyWorld =
  getAllProfileDirectories :: "error + string list"
  getAllProfileNames :: "string \<Rightarrow> error + string list"
  readProfileFile :: "string \<Rightarrow> string \<Rightarrow> error + jsobj"
  readMetaFile :: "string \<Rightarrow> error + string option"
  credentialLoad :: "string \<Rightarrow> string \<Rightarrow> string \<Rightarrow> error + string option"
  jsonParse :: "string \<Rightarrow> error + jsval"
  getProfileMapKey :: "string \<Rightarrow> string \<Rightarrow> string"
  PROFILES_OPTION_SECURELY_STORED :: string

text \<open>The loop over \<^verbatim>\<open>Object.entries(profileProps)\<close>: the entries are enumerated once, before
  the loop changes \<^verbatim>\<open>profileProps\<close>; the state is \<^verbatim>\<open>profileProps\<close> and \<^verbatim>\<open>secureProps\<close>.\<close>

fun loadSecureProps ::
  "legacyWorld \<Rightarrow> string \<Rightarrow> string \<Rightarrow> jsobj \<Rightarrow> jsobj \<times> string list \<Rightarrow> error + (jsobj \<times> string list)" where
  "loadSecureProps w profileType profileName [] st = Inr st"
| "loadSecureProps w profileType profileName ((key, v) # entries) (profileProps, secureProps) =
     (case toStringMethod v of
        Inl e \<Rightarrow> Inl e
      | Inr s \<Rightarrow>
          if startsWith s (PROFILES_OPTION_SECURELY_STORED w) then
            (case credentialLoad w profileType profileName key of
               Inl e \<Rightarrow> Inl e
             | Inr None \<Rightarrow>
                 loadSecureProps w profileType profileName entries
                   (AList.delete key profileProps, secureProps)
             | Inr (Some secureValue) \<Rightarrow>
                 (case jsonParse w secureValue of
                    Inl e \<Rightarrow> Inl e
                  | Inr parsed \<Rightarrow>
                      loadSecureProps w profileType profileName entries
                        (AList.update key parsed profileProps, secureProps @ [key])))
          else loadSecureProps w profileType profileName entries (profileProps, secureProps))"

text \<open>The body of the \<^verbatim>\<open>try\<close> up to the profile object.\<close>

definition readLegacyProfile :: "legacyWorld \<Rightarrow> string \<Rightarrow> string \<Rightarrow> error + profile" where
  "readLegacyProfile w profileType profileName =
     (case readProfileFile w profileType profileName of
        Inl e \<Rightarrow> Inl e
      | Inr profileProps \<Rightarrow>
          (case loadSecureProps w profileType profileName profileProps (profileProps, []) of
             Inl e \<Rightarrow> Inl e
           | Inr (props, secureProps) \<Rightarrow>
               Inr \<lparr>type = Some profileType, properties = props, secure = Some secureProps\<rparr>))"

text \<open>One round of the loop over the profile names: the \<^verbatim>\<open>try\<close> and its \<^verbatim>\<open>catch\<close>. The
  last statement of the \<^verbatim>\<open>try\<close> reads \<^verbatim>\<open>result.profilesConverted[profileType] || []\<close>,
  where \<^verbatim>\<open>profilesConverted\<close> starts as \<^verbatim>\<open>{}\<close>: for a profile type that names a member
  of \<^verbatim>\<open>Object.prototype\<close> the spread throws, after the profile has been stored in the
  config, and the \<^verbatim>\<open>catch\<close> records the profile as failed.\<close>

definition convertProfile :: "legacyWorld \<Rightarrow> string \<Rightarrow> string \<Rightarrow> convertResult \<Rightarrow> convertResult" where
  "convertProfile w profileType profileName result =
     (case readLegacyProfile w profileType profileName of
        Inl e \<Rightarrow>
          result\<lparr>profilesFailed := profilesFailed result
                    @ [\<lparr>failedName = Some profileName, failedType = profileType, failedError = e\<rparr>]\<rparr>
      | Inr p \<Rightarrow>
          (let stored = result\<lparr>config := (config result)
                           \<lparr>profiles := assignProperty (getProfileMapKey w profileType profileName) p
                                          (profiles (config result))\<rparr>\<rparr>
           in case map_of (profilesConverted result) profileType of
                Some names \<Rightarrow>
                  stored\<lparr>profilesConverted := AList.update profileType (names @ [profileName])
                                                 (profilesConverted result)\<rparr>
              | None \<Rightarrow>
                  if inheritedMember profileType
                  then stored\<lparr>profilesFailed := profilesFailed result
                                 @ [\<lparr>failedName = Some profileName, failedType = profileType,
                                     failedError = TypeError ''result.profilesConverted[profileType] is not iterable''\<rparr>]\<rparr>
                  else stored\<lparr>profilesConverted := AList.update profileType [profileName]
                                                      (profilesConverted result)\<rparr>))"

text \<open>The second \<^verbatim>\<open>try\<close>: the meta file of the type.\<close>

definition convertMeta :: "legacyWorld \<Rightarrow> string \<Rightarrow> convertResult \<Rightarrow> convertResult" where
  "convertMeta w profileType result =
     (case readMetaFile w profileType of
        Inl e \<Rightarrow>
          result\<lparr>profilesFailed := profilesFailed result
                    @ [\<lparr>failedName = None, failedType = profileType, failedError = e\<rparr>]\<rparr>
      | Inr None \<Rightarrow> result
      | Inr (Some defaultProfile) \<Rightarrow>
          result\<lparr>config := (config result)
                    \<lparr>defaults := assignProperty profileType
                                     (getProfileMapKey w profileType defaultProfile)
                                     (defaults (config result))\<rparr>\<rparr>)"

text \<open>One round of the loop over the profile types. The listing of the names is outside
  both \<^verbatim>\<open>try\<close> blocks.\<close>

definition convertType :: "legacyWorld \<Rightarrow> string \<Rightarrow> convertResult \<Rightarrow> error + convertResult" where
  "convertType w profileType result =
     (case getAllProfileNames w profileType of
        Inl e \<Rightarrow> Inl e
      | Inr profileNames \<Rightarrow>
          if length profileNames = 0 then Inr result
          else Inr (convertMeta w profileType (fold (convertProfile w profileType) profileNames result)))"

definition convert :: "legacyWorld \<Rightarrow> error + convertResult" where
  "convert w =
     (case getAllProfileDirectories w of
        Inl e \<Rightarrow> Inl e
      | Inr profileTypes \<Rightarrow>
          (case foldE (convertType w) profileTypes
                  \<lparr>config = emptyConfig, profilesConverted = [], profilesFailed = []\<rparr> of
             Inl e \<Rightarrow> Inl e
           | Inr result \<Rightarrow>
               (case convertPropNames result of
                  Inl e \<Rightarrow> Inl e
                | Inr renamed \<Rightarrow> Inr (renamed\<lparr>config := (config renamed)\<lparr>autoStore := Some True\<rparr>\<rparr>))))"

section \<open>ConfigBuilder.build\<close>

text \<open>
  The inputs of \<^verbatim>\<open>build\<close>. A schema property has its \<^verbatim>\<open>type\<close> (a name or a list of
  names), the flags \<^verbatim>\<open>secure\<close> and \<^verbatim>\<open>includeInTemplate\<close> (absent counts as false), and
  possibly an \<^verbatim>\<open>optionDefinition\<close>, of which only \<^verbatim>\<open>defaultValue\<close> is read
  (\<open>Some JUndefined\<close> is an option definition without default value). A profile type
  declaration has its \<^verbatim>\<open>type\<close> and \<^verbatim>\<open>schema.properties\<close>. The callback \<^verbatim>\<open>getValueBack\<close>
  may reject.

  \<^verbatim>\<open>lodash.set\<close> is modelled for profile types and property names that are single path
  segments (no dot, no bracket) and none of the keys that \<^verbatim>\<open>lodash.set\<close> may refuse
  (\<^verbatim>\<open>__proto__\<close>, \<^verbatim>\<open>constructor\<close>, \<^verbatim>\<open>prototype\<close>), where
  \<^verbatim>\<open>lodash.set(config, `profiles.${t}`, p)\<close> is \<^verbatim>\<open>config.profiles[t] = p\<close>. Names that
  are array indices are outside the model as well: \<^verbatim>\<open>lodash.set\<close> creates an array
  where such a name follows a missing object.
\<close>

datatype propertyType = TypeName string | TypeNames "string list"

record schemaProperty =
  schemaType :: propertyType
  schemaSecure :: bool
  includeInTemplate :: bool
  optionDefinition :: "jsval option"

record profileTypeConfiguration =
  profType :: string
  schemaProperties :: "(string \<times> schemaProperty) list"

record imperativeConfig =
  configuredProfiles :: "profileTypeConfiguration list"
  baseProfile :: "profileTypeConfiguration option"

record configBuilderOpts =
  populateProperties :: bool
  getValueBack :: "(string \<Rightarrow> schemaProperty \<Rightarrow> error + jsval) option"

text \<open>\<^verbatim>\<open>getDefaultValue\<close>. The object and the array it returns are new ones: \<open>ref\<close> is a
  reference that no other value has.\<close>

definition getDefaultValue :: "propertyType \<Rightarrow> nat \<Rightarrow> jsval" where
  "getDefaultValue propType ref =
     (let t = (case propType of
                 TypeName n \<Rightarrow> Some n
               | TypeNames ns \<Rightarrow> (case ns of [] \<Rightarrow> None | n # _ \<Rightarrow> Some n))
      in if t = Some ''string'' then JStr ''''
         else if t = Some ''number'' then JNum 0
         else if t = Some ''object'' then JObj ref []
         else if t = Some ''array'' then JArr ref []
         else if t = Some ''boolean'' then JBool False
         else JNull)"

text \<open>The loop over \<^verbatim>\<open>Object.entries(profile.schema.properties)\<close>; the state is
  \<^verbatim>\<open>properties\<close>, which starts as \<^verbatim>\<open>{}\<close>, \<^verbatim>\<open>secureProps\<close> and the next unused
  reference. For a property that names a member of \<^verbatim>\<open>Object.prototype\<close> and has no
  default of its own, \<^verbatim>\<open>properties[k] === undefined\<close> is false and nothing is stored.\<close>

fun buildProperties ::
  "bool \<Rightarrow> (string \<times> schemaProperty) list \<Rightarrow> jsobj \<times> string list \<times> nat \<Rightarrow> jsobj \<times> string list \<times> nat" where
  "buildProperties populate [] st = st"
| "buildProperties populate ((k, v) # rest) (props, secureProps, ref) =
     (if populate \<and> includeInTemplate v then
        (if schemaSecure v then buildProperties populate rest (props, secureProps @ [k], ref)
         else
           (let props1 = (case optionDefinition v of
                            None \<Rightarrow> props
                          | Some defaultValue \<Rightarrow> assignProperty k defaultValue props)
            in if readsUndefined props1 k
               then buildProperties populate rest
                      (assignProperty k (getDefaultValue (schemaType v) ref) props1, secureProps, Suc ref)
               else buildProperties populate rest (props1, secureProps, ref)))
      else buildProperties populate rest (props, secureProps, ref))"

text \<open>The loop over \<^verbatim>\<open>impConfig.profiles\<close>; the state is the config and the next unused
  reference.\<close>

fun buildProfiles :: "bool \<Rightarrow> profileTypeConfiguration list \<Rightarrow> config \<times> nat \<Rightarrow> config \<times> nat" where
  "buildProfiles populate [] st = st"
| "buildProfiles populate (profile # rest) (cfg, ref) =
     (case buildProperties populate (schemaProperties profile) ([], [], ref) of
        (props, secureProps, ref') \<Rightarrow>
          buildProfiles populate rest
            (cfg\<lparr>profiles := AList.update (profType profile)
                                \<lparr>type = Some (profType profile), properties = props,
                                 secure = Some secureProps\<rparr>
                                (profiles cfg),
                 defaults := (if populate
                              then assignProperty (profType profile) (profType profile) (defaults cfg)
                              else defaults cfg)\<rparr>,
             ref'))"

text \<open>\<^verbatim>\<open>lodash.set(config, `profiles.base.properties.${k}`, propValue)\<close>: the path names the
  key \<^verbatim>\<open>base\<close>; where no profile is stored under it, an object with only
  \<^verbatim>\<open>properties\<close> is created.\<close>

definition setBaseProperty :: "string \<Rightarrow> jsval \<Rightarrow> profiles \<Rightarrow> profiles" where
  "setBaseProperty k propValue ps =
     (case map_of ps ''base'' of
        None \<Rightarrow> AList.update ''base'' \<lparr>type = None, properties = [(k, propValue)], secure = None\<rparr> ps
      | Some p \<Rightarrow> AList.update ''base'' (p\<lparr>properties := AList.update k propValue (properties p)\<rparr>) ps)"

text \<open>One round of the loop over the properties of the base profile's schema.\<close>

definition valueBack ::
  "(string \<Rightarrow> schemaProperty \<Rightarrow> error + jsval) \<Rightarrow> string list \<Rightarrow> string \<times> schemaProperty \<Rightarrow> profiles \<Rightarrow> error + profiles" where
  "valueBack callback hoistedProps kv ps =
     (case kv of (k, v) \<Rightarrow>
        if k \<in> set hoistedProps \<or> (includeInTemplate v \<and> schemaSecure v) then
          (case callback k v of
             Inl e \<Rightarrow> Inl e
           | Inr propValue \<Rightarrow>
               if propValue \<noteq> JNull \<and> propValue \<noteq> JUndefined
               then Inr (setBaseProperty k propValue ps)
               else Inr ps)
        else Inr ps)"

definition build :: "imperativeConfig \<Rightarrow> configBuilderOpts \<Rightarrow> nat \<Rightarrow> error + config" where
  "build impConfig opts ref =
     (case buildProfiles (populateProperties opts) (configuredProfiles impConfig) (emptyConfig, ref) of
        (cfg, ref') \<Rightarrow>
          (case baseProfile impConfig of
             None \<Rightarrow> Inr (cfg\<lparr>autoStore := Some True\<rparr>)
           | Some base \<Rightarrow>
               (case hoistTemplateProperties (profiles cfg) (profType base) of
                  Inl e \<Rightarrow> Inl e
                | Inr (ps, hoistedProps) \<Rightarrow>
                    (case getValueBack opts of
                       None \<Rightarrow> Inr (cfg\<lparr>profiles := ps, autoStore := Some True\<rparr>)
                     | Some callback \<Rightarrow>
                         (case foldE (valueBack callback hoistedProps) (schemaProperties base) ps of
                            Inl e \<Rightarrow> Inl e
                          | Inr ps' \<Rightarrow> Inr (cfg\<lparr>profiles := ps', autoStore := Some True\<rparr>))))))"

section \<open>BaseAuthHandler\<close>

text \<open>
  The command arguments the handler reads, a session configuration (\<^verbatim>\<open>ISession\<close>: its
  \<^verbatim>\<open>type\<close>, \<^verbatim>\<open>tokenType\<close> and \<^verbatim>\<open>tokenValue\<close>, and the other fields), and the requests
  the handler sends to the profile manager.
\<close>

record commandArguments =
  tokenType :: jsval
  tokenValue :: jsval
  host :: jsval
  port :: jsval
  showToken :: jsval
  otherArguments :: jsobj

record isession =
  sessionType :: jsval
  sessionTokenType :: jsval
  sessionTokenValue :: jsval
  sessionOther :: jsobj

text \<open>Modelled from the spec: \<^verbatim>\<open>getMeta\<close> is not part of the sources; it returns the loaded
  profile as \<^verbatim>\<open>{ name?, type, profile }\<close>.\<close>

record loadedProfile =
  loadedName :: "string option"
  loadedType :: string
  loadedProperties :: jsobj

record updateRequest =
  updateName :: string
  updateArgs :: jsobj
  updateMerge :: bool

record saveRequest =
  saveName :: string
  saveType :: string
  saveOverwrite :: bool
  saveProfile :: jsobj

text \<open>Every call the handler makes to a collaborator or to one of its abstract methods,
  in order, with the lines it prints.\<close>

datatype event =
    GetMeta string bool
  | CreateSessCfgFromArgs
  | AddCredsOrPrompt
  | NewSession
  | DoLogin
  | DoLogout
  | Update updateRequest
  | Save saveRequest
  | ConsoleLog string

text \<open>The abstract members of the handler and its collaborators. A call that can throw
  returns a sum; \<^verbatim>\<open>doLogin\<close> and \<^verbatim>\<open>doLogout\<close> receive the session object and may change
  it, so they return it.\<close>

record authEnvironment =
  mProfileType :: string
  mDefaultTokenType :: string
  getMeta :: "string \<Rightarrow> bool \<Rightarrow> error + loadedProfile"
  createSessCfgFromArgs :: "commandArguments \<Rightarrow> error + isession"
  addCredsOrPrompt :: "isession \<Rightarrow> commandArguments \<Rightarrow> bool \<Rightarrow> string \<Rightarrow> error + isession"
  newSession :: "isession \<Rightarrow> error + isession"
  doLogin :: "isession \<Rightarrow> error + (string \<times> isession)"
  doLogout :: "isession \<Rightarrow> error + isession"
  profileUpdate :: "updateRequest \<Rightarrow> error + unit"
  profileSave :: "saveRequest \<Rightarrow> error + unit"

text \<open>The handler's own state, \<^verbatim>\<open>mSession\<close> (\<open>None\<close> while unassigned), and the events so
  far.\<close>

record handlerState =
  mSession :: "isession option"
  events :: "event list"

definition logEvent :: "event \<Rightarrow> handlerState \<Rightarrow> handlerState" where
  "logEvent e st = st\<lparr>events := events st @ [e]\<rparr>"

text \<open>Modelled from the spec: \<^verbatim>\<open>SessConstants\<close> is not part of the sources; the two session
  types the handler sets are the token mode and the basic-credential mode.\<close>

definition AUTH_TYPE_TOKEN :: jsval where
  "AUTH_TYPE_TOKEN = JStr ''token''"

definition AUTH_TYPE_BASIC :: jsval where
  "AUTH_TYPE_BASIC = JStr ''basic''"

text \<open>Modelled from the spec: \<^verbatim>\<open>ImperativeExpect.toNotBeNullOrUndefined\<close> is not part of the
  sources; it fails with a validation error carrying the message when the value is
  absent.\<close>

definition toNotBeNullOrUndefined :: "jsval \<Rightarrow> string \<Rightarrow> error option" where
  "toNotBeNullOrUndefined v msg =
     (if v = JNull \<or> v = JUndefined then Some (ImperativeError msg) else None)"

text \<open>The four checks of \<^verbatim>\<open>processLogout\<close>, in their order: the first that fails throws.\<close>

definition logoutValidation :: "commandArguments \<Rightarrow> error option" where
  "logoutValidation args =
     (case toNotBeNullOrUndefined (tokenType args) ''Token type not supplied, but is required for logout.'' of
        Some e \<Rightarrow> Some e
      | None \<Rightarrow>
     (case toNotBeNullOrUndefined (tokenValue args) ''Token value not supplied, but is required for logout.'' of
        Some e \<Rightarrow> Some e
      | None \<Rightarrow>
     (case toNotBeNullOrUndefined (host args) ''Host not supplied, but is required for logout.'' of
        Some e \<Rightarrow> Some e
      | None \<Rightarrow>
        toNotBeNullOrUndefined (port args) ''Port not supplied, but is required for logout.'')))"

text \<open>\<^verbatim>\<open>===\<close>: by value on primitives, by reference on arrays and objects.\<close>

definition strictEquals :: "jsval \<Rightarrow> jsval \<Rightarrow> bool" where
  "strictEquals x y = (identityOf x = identityOf y)"

text \<open>A missing property reads as \<^verbatim>\<open>undefined\<close>.\<close>

definition getProperty :: "jsobj \<Rightarrow> string \<Rightarrow> jsval" where
  "getProperty obj k = (case map_of obj k of None \<Rightarrow> JUndefined | Some v \<Rightarrow> v)"

definition truthy :: "jsval \<Rightarrow> bool" where
  "truthy v = (case v of
       JUndefined \<Rightarrow> False | JNull \<Rightarrow> False | JBool b \<Rightarrow> b
     | JNum n \<Rightarrow> n \<noteq> 0 | JStr s \<Rightarrow> s \<noteq> [] | JArr a xs \<Rightarrow> True | JObj a ps \<Rightarrow> True)"

text \<open>\<^verbatim>\<open>processLogout\<close>. The result is the error thrown, if any, and the state at that
  point.\<close>

definition logoutSaveRequest :: "string \<Rightarrow> loadedProfile \<Rightarrow> saveRequest" where
  "logoutSaveRequest n loaded =
     \<lparr>saveName = n, saveType = loadedType loaded, saveOverwrite = True,
      saveProfile = AList.update ''tokenValue'' JUndefined
                      (AList.update ''tokenType'' JUndefined (loadedProperties loaded))\<rparr>"

definition finishLogout :: "isession \<Rightarrow> handlerState \<Rightarrow> error option \<times> handlerState" where
  "finishLogout sess st =
     (None,
      logEvent (ConsoleLog ''Logout successful.'')
        (st\<lparr>mSession := Some (sess\<lparr>sessionType := AUTH_TYPE_BASIC,
                                    sessionTokenType := JUndefined,
                                    sessionTokenValue := JUndefined\<rparr>)\<rparr>))"

definition processLogout ::
  "authEnvironment \<Rightarrow> commandArguments \<Rightarrow> handlerState \<Rightarrow> error option \<times> handlerState" where
  "processLogout env args st0 =
     (let st1 = logEvent (GetMeta (mProfileType env) False) st0 in
      case getMeta env (mProfileType env) False of
        Inl e \<Rightarrow> (Some e, st1)
      | Inr loaded \<Rightarrow>
     (let st2 = logEvent CreateSessCfgFromArgs st1 in
      case createSessCfgFromArgs env args of
        Inl e \<Rightarrow> (Some e, st2)
      | Inr sessCfg \<Rightarrow>
     (let st3 = logEvent NewSession st2 in
      case newSession env sessCfg of
        Inl e \<Rightarrow> (Some e, st3)
      | Inr sess \<Rightarrow>
     (let st4 = st3\<lparr>mSession := Some sess\<rparr> in
      case logoutValidation args of
        Some e \<Rightarrow> (Some e, st4)
      | None \<Rightarrow>
     (let tokenSess = sess\<lparr>sessionType := AUTH_TYPE_TOKEN,
                           sessionTokenType := tokenType args,
                           sessionTokenValue := tokenValue args\<rparr>;
          st5 = logEvent DoLogout (st4\<lparr>mSession := Some tokenSess\<rparr>) in
      case doLogout env tokenSess of
        Inl e \<Rightarrow> (Some e, st5)
      | Inr sess' \<Rightarrow>
     (let st6 = st5\<lparr>mSession := Some sess'\<rparr> in
      case loadedName loaded of
        None \<Rightarrow> finishLogout sess' st6
      | Some n \<Rightarrow>
          if strictEquals (tokenValue args) (getProperty (loadedProperties loaded) ''tokenValue'')
          then
            (let st7 = logEvent (Save (logoutSaveRequest n loaded)) st6 in
             case profileSave env (logoutSaveRequest n loaded) of
               Inl e \<Rightarrow> (Some e, st7)
             | Inr u \<Rightarrow> finishLogout sess' st7)
          else finishLogout sess' st6))))))"

text \<open>\<^verbatim>\<open>processLogin\<close>.\<close>

definition loginUpdateRequest :: "string \<Rightarrow> isession \<Rightarrow> string \<Rightarrow> updateRequest" where
  "loginUpdateRequest n sess token =
     \<lparr>updateName = n,
      updateArgs = [(''token-type'', sessionTokenType sess), (''token-value'', JStr token)],
      updateMerge = True\<rparr>"

definition tokenMessage :: "isession \<Rightarrow> string \<Rightarrow> string" where
  "tokenMessage sess token =
     ''\<newline>Received a token of type = '' @ ToString (sessionTokenType sess)
       @ ''.\<newline>The following token was stored in your profile:\<newline>'' @ token"

definition finishLogin ::
  "commandArguments \<Rightarrow> isession \<Rightarrow> string \<Rightarrow> handlerState \<Rightarrow> error option \<times> handlerState" where
  "finishLogin args sess token st =
     (let st' = logEvent (ConsoleLog ''Login successful.'') st in
      if truthy (showToken args)
      then (None, logEvent (ConsoleLog (tokenMessage sess token)) st')
      else (None, st'))"

definition processLogin ::
  "authEnvironment \<Rightarrow> commandArguments \<Rightarrow> handlerState \<Rightarrow> error option \<times> handlerState" where
  "processLogin env args st0 =
     (let st1 = logEvent (GetMeta (mProfileType env) False) st0 in
      case getMeta env (mProfileType env) False of
        Inl e \<Rightarrow> (Some e, st1)
      | Inr loaded \<Rightarrow>
     (let st2 = logEvent CreateSessCfgFromArgs st1 in
      case createSessCfgFromArgs env args of
        Inl e \<Rightarrow> (Some e, st2)
      | Inr sessCfg \<Rightarrow>
     (let st3 = logEvent AddCredsOrPrompt st2 in
      case addCredsOrPrompt env sessCfg args True (mDefaultTokenType env) of
        Inl e \<Rightarrow> (Some e, st3)
      | Inr sessCfgWithCreds \<Rightarrow>
     (let st4 = logEvent NewSession st3 in
      case newSession env sessCfgWithCreds of
        Inl e \<Rightarrow> (Some e, st4)
      | Inr sess \<Rightarrow>
     (let st5 = logEvent DoLogin (st4\<lparr>mSession := Some sess\<rparr>) in
      case doLogin env sess of
        Inl e \<Rightarrow> (Some e, st5)
      | Inr (token, sess') \<Rightarrow>
     (let st6 = st5\<lparr>mSession := Some sess'\<rparr> in
      case loadedName loaded of
        None \<Rightarrow> finishLogin args sess' token st6
      | Some n \<Rightarrow>
          if \<not> truthy (showToken args)
          then
            (let st7 = logEvent (Update (loginUpdateRequest n sess' token)) st6 in
             case profileUpdate env (loginUpdateRequest n sess' token) of
               Inl e \<Rightarrow> (Some e, st7)
             | Inr u \<Rightarrow> finishLogin args sess' token st7)
          else finishLogin args sess' token st6))))))"

section \<open>Notions used in the statements\<close>

text \<open>Equality by value, as the specification words it: the contents are compared and
  the references are ignored.\<close>

primrec stripRefs :: "jsval \<Rightarrow> jsval" where
  "stripRefs JUndefined = JUndefined"
| "stripRefs JNull = JNull"
| "stripRefs (JBool b) = JBool b"
| "stripRefs (JNum n) = JNum n"
| "stripRefs (JStr s) = JStr s"
| "stripRefs (JArr a xs) = JArr 0 (map stripRefs xs)"
| "stripRefs (JObj a ps) = JObj 0 (map (map_prod id stripRefs) ps)"

definition valueEq :: "jsval \<Rightarrow> jsval \<Rightarrow> bool" where
  "valueEq x y = (stripRefs x = stripRefs y)"

text \<open>Objects have distinct keys.\<close>

definition wfProfiles :: "profiles \<Rightarrow> bool" where
  "wfProfiles ps = (distinct (map fst ps) \<and> list_all (\<lambda>e. distinct (map fst (properties (snd e)))) ps)"

text \<open>No property of a non-base profile is named like a member of \<^verbatim>\<open>Object.prototype\<close>.\<close>

definition plainChildNames :: "profiles \<Rightarrow> string \<Rightarrow> bool" where
  "plainChildNames ps baseProfileType =
     list_all (\<lambda>p. list_all (\<lambda>e. \<not> inheritedMember (fst e)) (properties p))
       (childProfiles ps baseProfileType)"

text \<open>The values a property name has in the non-base profiles, in enumeration order.\<close>

definition childValues :: "profiles \<Rightarrow> string \<Rightarrow> string \<Rightarrow> jsval list" where
  "childValues ps baseProfileType k =
     List.map_filter (\<lambda>p. map_of (properties p) k) (childProfiles ps baseProfileType)"

definition allSame :: "(jsval \<Rightarrow> jsval \<Rightarrow> bool) \<Rightarrow> jsval list \<Rightarrow> bool" where
  "allSame eq vs = list_all (\<lambda>x. list_all (eq x) vs) vs"

text \<open>The hoist candidates as the specification words them: the name appears in more
  than one non-base profile and the observed values are pairwise equal by value.\<close>

definition specCandidate :: "profiles \<Rightarrow> string \<Rightarrow> string \<Rightarrow> bool" where
  "specCandidate ps baseProfileType k =
     (1 < length (childValues ps baseProfileType k) \<and> allSame valueEq (childValues ps baseProfileType k))"

definition allHaveSecure :: "profiles \<Rightarrow> bool" where
  "allHaveSecure ps = list_all (\<lambda>e. secure (snd e) \<noteq> None) ps"









text \<open>An argument is absent when it is \<^verbatim>\<open>null\<close> or \<^verbatim>\<open>undefined\<close>.\<close>

definition absent :: "jsval \<Rightarrow> bool" where
  "absent v = (v = JNull \<or> v = JUndefined)"

text \<open>The events of a logout up to the session.\<close>

definition logoutPrefix :: "authEnvironment \<Rightarrow> event list" where
  "logoutPrefix env = [GetMeta (mProfileType env) False, CreateSessCfgFromArgs, NewSession]"

definition logoutMessages :: "string list" where
  "logoutMessages =
     [''Token type not supplied, but is required for logout.'',
      ''Token value not supplied, but is required for logout.'',
      ''Host not supplied, but is required for logout.'',
      ''Port not supplied, but is required for logout.'']"

section \<open>Notions used in the proofs\<close>

text \<open>The values observed for a property name over a list of property maps, in
  enumeration order; and the list stored in the flattened map, empty when absent.\<close>

definition observed :: "string \<Rightarrow> jsobj list \<Rightarrow> jsval list" where
  "observed k pss = concat (map (\<lambda>props. map snd (filter (\<lambda>e. fst e = k) props)) pss)"

definition flatGet :: "(string \<times> jsval list) list \<Rightarrow> string \<Rightarrow> jsval list" where
  "flatGet fl k = (case map_of fl k of None \<Rightarrow> [] | Some vs \<Rightarrow> vs)"

text \<open>The flattened map where no property name is inherited: no round throws.\<close>

definition plainAdd :: "string \<times> jsval \<Rightarrow> (string \<times> jsval list) list \<Rightarrow> (string \<times> jsval list) list" where
  "plainAdd kv fl = AList.update (fst kv) (flatGet fl (fst kv) @ [snd kv]) fl"

definition plainFlatten :: "jsobj list \<Rightarrow> (string \<times> jsval list) list" where
  "plainFlatten pss = fold (\<lambda>props fl. fold plainAdd props fl) pss []"

text \<open>The closed form of the hoisting loop, per profile: \<open>hoistStep\<close> is what one
  round does to the profile stored under \<open>key\<close>, \<open>hoistProfile\<close> what all rounds do.\<close>

definition hoistedValue :: "(string \<times> jsval list) list \<Rightarrow> string \<Rightarrow> jsval" where
  "hoistedValue fl n = (case flatGet fl n of [] \<Rightarrow> JUndefined | x # _ \<Rightarrow> x)"

definition hoistStep :: "string \<Rightarrow> (string \<times> jsval list) list \<Rightarrow> string \<Rightarrow> string \<Rightarrow> profile \<Rightarrow> profile" where
  "hoistStep bt fl n key p =
     deleteFromChild bt n
       (if key = bt then p\<lparr>properties := spreadAfter n (hoistedValue fl n) (properties p)\<rparr> else p)"

definition hoistProfile :: "string \<Rightarrow> (string \<times> jsval list) list \<Rightarrow> string list \<Rightarrow> string \<Rightarrow> profile \<Rightarrow> profile" where
  "hoistProfile bt fl ns key p = fold (\<lambda>n. hoistStep bt fl n key) ns p"

text \<open>What the renamer does to one profile that has a secure list.\<close>

definition renamedProfile :: "profile \<Rightarrow> profile" where
  "renamedProfile p =
     p\<lparr>properties := convertProperties (properties p),
       secure := map_option (map convertSecureName) (secure p)\<rparr>"





section \<open>Sample inputs\<close>

definition sampleProfiles :: profiles where
  "sampleProfiles =
     [(''base'', \<lparr>type = Some ''base'', properties = [], secure = Some []\<rparr>),
      (''zosmf'', \<lparr>type = Some ''zosmf'', properties = [(''host'', JStr ''h''), (''port'', JNum 443)], secure = Some []\<rparr>),
      (''tso'', \<lparr>type = Some ''tso'', properties = [(''host'', JStr ''h''), (''port'', JNum 23)], secure = Some []\<rparr>)]"

text \<open>A child profile with a property named \<open>toString\<close>.\<close>

definition inheritedNameProfiles :: profiles where
  "inheritedNameProfiles =
     [(''base'', \<lparr>type = Some ''base'', properties = [], secure = Some []\<rparr>),
      (''a'', \<lparr>type = Some ''a'', properties = [(''toString'', JStr ''x'')], secure = Some []\<rparr>),
      (''b'', \<lparr>type = Some ''b'', properties = [(''port'', JNum 0)], secure = Some []\<rparr>)]"

text \<open>An application whose profiles \<^verbatim>\<open>build\<close> creates as \<open>inheritedNameProfiles\<close>: the
  base profile type without properties, the type \<open>a\<close> with the template property
  \<open>toString\<close>, whose option definition has the default \<open>x\<close>, and the type \<open>b\<close> with the
  template property \<open>port\<close>.\<close>

definition inheritedHoistConfig :: imperativeConfig where
  "inheritedHoistConfig =
     (let base = \<lparr>profType = ''base'', schemaProperties = []\<rparr>
      in \<lparr>configuredProfiles =
            [base,
             \<lparr>profType = ''a'',
              schemaProperties =
                [(''toString'', \<lparr>schemaType = TypeName ''string'', schemaSecure = False,
                                 includeInTemplate = True, optionDefinition = Some (JStr ''x'')\<rparr>)]\<rparr>,
             \<lparr>profType = ''b'',
              schemaProperties =
                [(''port'', \<lparr>schemaType = TypeName ''number'', schemaSecure = False,
                             includeInTemplate = True, optionDefinition = None\<rparr>)]\<rparr>],
          baseProfile = Some base\<rparr>)"

definition divergingProfiles :: profiles where
  "divergingProfiles =
     [(''a'', \<lparr>type = Some ''a'', properties = [(''x'', JObj 1 []), (''h'', JStr ''1'')], secure = Some []\<rparr>),
      (''b'', \<lparr>type = Some ''b'', properties = [(''x'', JObj 2 []), (''h'', JStr ''1'')], secure = Some []\<rparr>),
      (''base'', \<lparr>type = Some ''base'', properties = [(''h'', JStr ''2'')], secure = Some []\<rparr>)]"

definition legacyResult :: convertResult where
  "legacyResult =
     \<lparr>config = \<lparr>defaults = [(''zosmf'', ''zosmf_lpar1'')],
                 profiles = [(''zosmf_lpar1'',
                              \<lparr>type = Some ''zosmf'',
                               properties = [(''hostname'', JStr ''a''), (''host'', JStr ''b''), (''port'', JNum 443)],
                               secure = Some [''pass'', ''port'']\<rparr>)],
                 plugins = [], configSecure = [], configProperties = [], autoStore = None\<rparr>,
       profilesConverted = [(''zosmf'', [''lpar1''])],
       profilesFailed = []\<rparr>"

text \<open>The profile of \<open>legacyResult\<close>: it has both \<open>hostname\<close> and \<open>host\<close>.\<close>

definition legacyProfile :: profile where
  "legacyProfile =
     \<lparr>type = Some ''zosmf'',
      properties = [(''hostname'', JStr ''a''), (''host'', JStr ''b''), (''port'', JNum 443)],
      secure = Some [''pass'', ''port'']\<rparr>"

text \<open>The JSON text of a string that needs no escapes: the string between double
  quotes.\<close>

definition jsonText :: "string \<Rightarrow> string" where
  "jsonText s = CHR 0x22 # s @ [CHR 0x22]"

text \<open>A legacy profile store with one type and two profiles: \<open>a\<close> reads, and its \<open>pass\<close>
  is kept in the vault, as the JSON text of \<open>pw\<close>; the file of \<open>b\<close> is malformed.\<close>

definition sampleWorld :: legacyWorld where
  "sampleWorld =
     \<lparr>getAllProfileDirectories = Inr [''zosmf''],
      getAllProfileNames = (\<lambda>t. if t = ''zosmf'' then Inr [''a'', ''b''] else Inr []),
      readProfileFile = (\<lambda>t n. if n = ''a''
                                then Inr [(''hostname'', JStr ''h''), (''pass'', JStr ''managed by app'')]
                                else Inl (ExternalError ''malformed yaml'')),
      readMetaFile = (\<lambda>t. Inr (Some ''a'')),
      credentialLoad = (\<lambda>t n k. Inr (Some (jsonText ''pw''))),
      jsonParse = (\<lambda>s. if s = jsonText ''pw'' then Inr (JStr ''pw'')
                          else Inl (ExternalError ''SyntaxError'')),
      getProfileMapKey = (\<lambda>t n. t @ ''_'' @ n),
      PROFILES_OPTION_SECURELY_STORED = ''managed by''\<rparr>"


text \<open>A store whose only profile type is named \<open>constructor\<close>, with the profile \<open>a\<close>.\<close>

definition constructorWorld :: legacyWorld where
  "constructorWorld =
     sampleWorld\<lparr>getAllProfileDirectories := Inr [''constructor''],
                 getAllProfileNames := (\<lambda>t. Inr [''a''])\<rparr>"

text \<open>An application whose base profile type is named \<open>my_base\<close>, with one secure
  template property, and a callback that returns a host name.\<close>

definition myBaseType :: profileTypeConfiguration where
  "myBaseType =
     \<lparr>profType = ''my_base'',
      schemaProperties = [(''host'', \<lparr>schemaType = TypeName ''string'', schemaSecure = True,
                                      includeInTemplate = True, optionDefinition = None\<rparr>)]\<rparr>"

definition myBaseConfig :: imperativeConfig where
  "myBaseConfig = \<lparr>configuredProfiles = [myBaseType], baseProfile = Some myBaseType\<rparr>"

definition hostBackOpts :: configBuilderOpts where
  "hostBackOpts =
     \<lparr>populateProperties = True, getValueBack = Some (\<lambda>k v. Inr (JStr ''example.com''))\<rparr>"




text \<open>A handler for the profile type \<open>base\<close>: the loaded profile \<open>my_base\<close> holds the token
  \<open>t1\<close>, the session is built from the host and port arguments, the service answers
  every login with the token \<open>t2\<close>, and the profile manager accepts every request.\<close>

definition sampleSession :: "commandArguments \<Rightarrow> isession" where
  "sampleSession args =
     \<lparr>sessionType = JUndefined, sessionTokenType = JUndefined, sessionTokenValue = JUndefined,
      sessionOther = [(''hostname'', host args), (''port'', port args)]\<rparr>"

definition sampleEnvironment :: authEnvironment where
  "sampleEnvironment =
     \<lparr>mProfileType = ''base'',
      mDefaultTokenType = ''apimlAuthenticationToken'',
      getMeta = (\<lambda>t strict. Inr \<lparr>loadedName = Some ''my_base'', loadedType = ''base'',
                                  loadedProperties = [(''tokenType'', JStr ''apimlAuthenticationToken''),
                                                      (''tokenValue'', JStr ''t1'')]\<rparr>),
      createSessCfgFromArgs = (\<lambda>args. Inr (sampleSession args)),
      addCredsOrPrompt = (\<lambda>cfg args requestToken defaultTokenType.
                            Inr (cfg\<lparr>sessionType := JStr ''token'', sessionTokenType := JStr defaultTokenType\<rparr>)),
      newSession = (\<lambda>cfg. Inr cfg),
      doLogin = (\<lambda>sess. Inr (''t2'', sess)),
      doLogout = (\<lambda>sess. Inr sess),
      profileUpdate = (\<lambda>r. Inr ()),
      profileSave = (\<lambda>r. Inr ())\<rparr>"

definition logoutArguments :: "jsval \<Rightarrow> jsval \<Rightarrow> commandArguments" where
  "logoutArguments token p =
     \<lparr>tokenType = JStr ''apimlAuthenticationToken'', tokenValue = token,
      host = JStr ''example.com'', port = p, showToken = JUndefined, otherArguments = []\<rparr>"

definition loginArguments :: "jsval \<Rightarrow> commandArguments" where
  "loginArguments st =
     \<lparr>tokenType = JUndefined, tokenValue = JUndefined, host = JStr ''example.com'',
      port = JNum 7554, showToken = st, otherArguments = []\<rparr>"

definition idleState :: handlerState where
  "idleState = \<lparr>mSession = None, events = []\<rparr>"

text \<open>The profile that \<open>sampleEnvironment\<close> loads.\<close>

definition sampleLoaded :: loadedProfile where
  "sampleLoaded =
     \<lparr>loadedName = Some ''my_base'', loadedType = ''base'',
      loadedProperties = [(''tokenType'', JStr ''apimlAuthenticationToken''),
                          (''tokenValue'', JStr ''t1'')]\<rparr>"

text \<open>An application with one profile type, whose template properties are \<open>toString\<close>,
  without option definition, and \<open>valueOf\<close>, whose option definition has the default
  \<open>v\<close>; no base profile is designated.\<close>

definition inheritedNameConfig :: imperativeConfig where
  "inheritedNameConfig =
     \<lparr>configuredProfiles =
        [\<lparr>profType = ''zosmf'',
          schemaProperties =
            [(''toString'', \<lparr>schemaType = TypeName ''string'', schemaSecure = False,
                              includeInTemplate = True, optionDefinition = None\<rparr>),
             (''valueOf'', \<lparr>schemaType = TypeName ''string'', schemaSecure = False,
                             includeInTemplate = True, optionDefinition = Some (JStr ''v'')\<rparr>)]\<rparr>],
      baseProfile = None\<rparr>"

text \<open>An application with two profile types that declare the same template property of
  type \<open>object\<close>, and a base profile type without properties.\<close>

definition objectDefaultsConfig :: imperativeConfig where
  "objectDefaultsConfig =
     (let x = \<lparr>schemaType = TypeName ''object'', schemaSecure = False,
                includeInTemplate = True, optionDefinition = None\<rparr>;
          base = \<lparr>profType = ''base'', schemaProperties = []\<rparr>
      in \<lparr>configuredProfiles =
            [\<lparr>profType = ''a'', schemaProperties = [(''x'', x)]\<rparr>,
             \<lparr>profType = ''b'', schemaProperties = [(''x'', x)]\<rparr>,
             base],
          baseProfile = Some base\<rparr>)"

section \<open>Verification\<close>

subsection \<open>Sets and the flattened property map\<close>

lemma sameValueZero_refl: "sameValueZero x x"
  by (simp add: sameValueZero_def)

lemma setAdd_length_mono: "length s \<le> length (fold (\<lambda>x s. setAdd s x) vs s)"
proof (induction vs arbitrary: s)
  case Nil
  show ?case by simp
next
  case (Cons v vs)
  have "length s \<le> length (setAdd s v)" by (simp add: setAdd_def)
  also have "\<dots> \<le> length (fold (\<lambda>x s. setAdd s x) vs (setAdd s v))" by (rule Cons.IH)
  finally show ?case by simp
qed

lemma setAdd_singleton:
  "length (fold (\<lambda>x s. setAdd s x) vs [a]) = 1 \<longleftrightarrow> (\<forall>x\<in>set vs. sameValueZero a x)"
proof (induction vs)
  case Nil
  show ?case by simp
next
  case (Cons v vs)
  show ?case
  proof (cases "sameValueZero a v")
    case True
    then have "setAdd [a] v = [a]" by (simp add: setAdd_def)
    with Cons True show ?thesis by simp
  next
    case False
    then have eq: "setAdd [a] v = [a, v]" by (simp add: setAdd_def)
    have "length [a, v] \<le> length (fold (\<lambda>x s. setAdd s x) vs [a, v])"
      by (rule setAdd_length_mono)
    then have "length (fold (\<lambda>x s. setAdd s x) vs [a, v]) \<noteq> 1" by simp
    with False eq show ?thesis by simp
  qed
qed

lemma newSet_size_one:
  "length (newSet vs) = 1 \<longleftrightarrow> vs \<noteq> [] \<and> (\<forall>x\<in>set vs. sameValueZero (hd vs) x)"
proof (cases vs)
  case Nil
  then show ?thesis by (simp add: newSet_def)
next
  case (Cons a as)
  have "setAdd [] a = [a]" by (simp add: setAdd_def)
  then have "newSet vs = fold (\<lambda>x s. setAdd s x) as [a]"
    by (simp add: newSet_def Cons)
  then show ?thesis
    using setAdd_singleton [of as a] by (simp add: Cons sameValueZero_refl)
qed

lemma plainAdd_distinct:
  "distinct (map fst fl) \<Longrightarrow> distinct (map fst (plainAdd kv fl))"
  by (simp add: plainAdd_def distinct_update)

lemma fold_plainAdd_distinct:
  "distinct (map fst fl) \<Longrightarrow> distinct (map fst (fold plainAdd props fl))"
  by (induction props arbitrary: fl) (simp_all add: plainAdd_distinct)

lemma plainFlatten_distinct_aux:
  "distinct (map fst fl) \<Longrightarrow>
   distinct (map fst (fold (\<lambda>props fl. fold plainAdd props fl) pss fl))"
  by (induction pss arbitrary: fl) (simp_all add: fold_plainAdd_distinct)

lemma plainFlatten_distinct: "distinct (map fst (plainFlatten pss))"
  using plainFlatten_distinct_aux [where fl = "[]" and pss = pss] by (simp add: plainFlatten_def)

lemma plainAdd_get:
  "flatGet (plainAdd kv fl) k = (if fst kv = k then flatGet fl k @ [snd kv] else flatGet fl k)"
  by (simp add: plainAdd_def flatGet_def update_conv' split: option.splits)

lemma plainAdd_dom:
  "fst ` set (plainAdd kv fl) = insert (fst kv) (fst ` set fl)"
  by (simp add: plainAdd_def dom_update)

lemma fold_plainAdd_get:
  "flatGet (fold plainAdd props fl) k = flatGet fl k @ map snd (filter (\<lambda>e. fst e = k) props)"
  by (induction props arbitrary: fl) (simp_all add: plainAdd_get)

lemma fold_plainAdd_dom:
  "fst ` set (fold plainAdd props fl) = fst ` set props \<union> fst ` set fl"
  by (induction props arbitrary: fl) (auto simp: plainAdd_dom)

lemma flatten_get_aux:
  "flatGet (fold (\<lambda>props fl. fold plainAdd props fl) pss fl) k = flatGet fl k @ observed k pss"
  by (induction pss arbitrary: fl) (simp_all add: fold_plainAdd_get observed_def)

lemma flatten_dom_aux:
  "fst ` set (fold (\<lambda>props fl. fold plainAdd props fl) pss fl)
     = (\<Union>props\<in>set pss. fst ` set props) \<union> fst ` set fl"
  by (induction pss arbitrary: fl) (auto simp: fold_plainAdd_dom)

lemma plainFlatten_get: "flatGet (plainFlatten pss) k = observed k pss"
  using flatten_get_aux [where fl = "[]" and pss = pss and k = k] by (simp add: plainFlatten_def flatGet_def)

lemma plainFlatten_dom: "fst ` set (plainFlatten pss) = (\<Union>props\<in>set pss. fst ` set props)"
  using flatten_dom_aux [where fl = "[]" and pss = pss] by (simp add: plainFlatten_def)

lemma plainFlatten_entry:
  assumes "(k, vs) \<in> set (plainFlatten pss)"
  shows "vs = observed k pss"
proof -
  from assms have "map_of (plainFlatten pss) k = Some vs"
    by (simp add: plainFlatten_distinct)
  then have "flatGet (plainFlatten pss) k = vs" by (simp add: flatGet_def)
  then show ?thesis by (simp add: plainFlatten_get)
qed

lemma observed_nonempty_dom:
  "observed k pss \<noteq> [] \<longleftrightarrow> k \<in> (\<Union>props\<in>set pss. fst ` set props)"
  by (induction pss) (auto simp: observed_def filter_empty_conv image_iff)

lemma duplicateProps_iff:
  "k \<in> set (duplicateProps (plainFlatten pss)) \<longleftrightarrow> isDuplicate (observed k pss)"
proof
  assume "k \<in> set (duplicateProps (plainFlatten pss))"
  then obtain vs where in_fl: "(k, vs) \<in> set (plainFlatten pss)" and dup: "isDuplicate vs"
    by (auto simp: duplicateProps_def)
  from in_fl have "vs = observed k pss" by (rule plainFlatten_entry)
  with dup show "isDuplicate (observed k pss)" by simp
next
  assume dup: "isDuplicate (observed k pss)"
  then have "observed k pss \<noteq> []" by (auto simp: isDuplicate_def)
  then have "k \<in> fst ` set (plainFlatten pss)"
    by (simp add: observed_nonempty_dom plainFlatten_dom)
  then obtain vs where in_fl: "(k, vs) \<in> set (plainFlatten pss)" by auto
  then have "vs = observed k pss" by (rule plainFlatten_entry)
  with dup in_fl show "k \<in> set (duplicateProps (plainFlatten pss))"
    by (force simp: duplicateProps_def)
qed

lemma addFlattened_plain:
  "\<not> inheritedMember (fst kv) \<Longrightarrow> addFlattened kv fl = Inr (plainAdd kv fl)"
  by (simp add: addFlattened_def plainAdd_def flatGet_def split: option.splits)

lemma foldE_addFlattened_plain:
  "list_all (\<lambda>e. \<not> inheritedMember (fst e)) props \<Longrightarrow>
   foldE addFlattened props fl = Inr (fold plainAdd props fl)"
  by (induction props arbitrary: fl) (simp_all add: addFlattened_plain)

lemma flattenProps_plain_aux:
  "list_all (\<lambda>props. list_all (\<lambda>e. \<not> inheritedMember (fst e)) props) pss \<Longrightarrow>
   foldE (\<lambda>props fl. foldE addFlattened props fl) pss fl
     = Inr (fold (\<lambda>props fl. fold plainAdd props fl) pss fl)"
  by (induction pss arbitrary: fl) (simp_all add: foldE_addFlattened_plain)

lemma plainChildNames_properties:
  "plainChildNames ps bt \<longleftrightarrow>
   list_all (\<lambda>props. list_all (\<lambda>e. \<not> inheritedMember (fst e)) props)
     (map properties (childProfiles ps bt))"
  by (simp add: plainChildNames_def list_all_iff)

lemma flattenProps_plain:
  assumes "plainChildNames ps bt"
  shows "flattenProps (map properties (childProfiles ps bt))
         = Inr (plainFlatten (map properties (childProfiles ps bt)))"
  using flattenProps_plain_aux
    [where pss = "map properties (childProfiles ps bt)" and fl = "[]"] assms
  by (simp add: plainChildNames_properties flattenProps_def plainFlatten_def)

subsection \<open>The hoisting loop in closed form\<close>

lemma map_entry_absent:
  "k \<notin> fst ` set ps \<Longrightarrow> map (\<lambda>e. if fst e = k then (fst e, f (snd e)) else e) ps = ps"
  by (induction ps) auto

lemma update_as_map:
  "distinct (map fst ps) \<Longrightarrow> map_of ps k = Some b \<Longrightarrow>
   AList.update k (f b) ps = map (\<lambda>e. if fst e = k then (fst e, f (snd e)) else e) ps"
proof (induction ps)
  case Nil
  then show ?case by simp
next
  case (Cons p ps)
  show ?case
  proof (cases "fst p = k")
    case True
    with Cons.prems have "k \<notin> fst ` set ps" and "snd p = b" by auto
    with True show ?thesis by (simp add: map_entry_absent)
  next
    case False
    with Cons show ?thesis by simp
  qed
qed

lemma hoistOne_map:
  assumes "distinct (map fst ps)" and "bt \<in> fst ` set ps" and "n \<in> fst ` set fl"
  shows "hoistOne bt fl n ps = Inr (map (\<lambda>e. (fst e, hoistStep bt fl n (fst e) (snd e))) ps)"
proof -
  from assms(2) obtain b where b: "map_of ps bt = Some b"
    by (metis domD dom_map_of_conv_image_fst)
  from assms(3) obtain vs where vs: "map_of fl n = Some vs"
    by (metis domD dom_map_of_conv_image_fst)
  have v: "(case vs of [] \<Rightarrow> JUndefined | x # _ \<Rightarrow> x) = hoistedValue fl n"
    by (simp add: hoistedValue_def flatGet_def vs)
  have "AList.update bt (b\<lparr>properties := spreadAfter n (hoistedValue fl n) (properties b)\<rparr>) ps
        = map (\<lambda>e. if fst e = bt
                    then (fst e, (snd e)\<lparr>properties := spreadAfter n (hoistedValue fl n) (properties (snd e))\<rparr>)
                    else e) ps"
    using update_as_map [OF assms(1) b,
        of "\<lambda>q. q\<lparr>properties := spreadAfter n (hoistedValue fl n) (properties q)\<rparr>"] .
  then show ?thesis
    by (simp add: hoistOne_def b vs v hoistStep_def cong: if_cong) (auto simp: map_prod_def split: prod.splits)
qed

lemma foldE_hoistOne:
  assumes "distinct (map fst ps)" and "bt \<in> fst ` set ps" and "set ns \<subseteq> fst ` set fl"
  shows "foldE (hoistOne bt fl) ns ps
         = Inr (map (\<lambda>e. (fst e, hoistProfile bt fl ns (fst e) (snd e))) ps)"
  using assms
proof (induction ns arbitrary: ps)
  case Nil
  show ?case by (simp add: hoistProfile_def)
next
  case (Cons n ns)
  let ?ps1 = "map (\<lambda>e. (fst e, hoistStep bt fl n (fst e) (snd e))) ps"
  have one: "hoistOne bt fl n ps = Inr ?ps1"
    using Cons.prems by (intro hoistOne_map) auto
  have keys: "map fst ?ps1 = map fst ps" by (simp add: comp_def)
  have "foldE (hoistOne bt fl) ns ?ps1
        = Inr (map (\<lambda>e. (fst e, hoistProfile bt fl ns (fst e) (snd e))) ?ps1)"
  proof (rule Cons.IH)
    show "distinct (map fst ?ps1)" using Cons.prems(1) by (simp only: keys)
    show "bt \<in> fst ` set ?ps1" using Cons.prems(2) by (force simp: image_iff)
    show "set ns \<subseteq> fst ` set fl" using Cons.prems(3) by simp
  qed
  then show ?case by (simp add: one hoistProfile_def comp_def)
qed

lemma duplicateProps_subset: "set (duplicateProps fl) \<subseteq> fst ` set fl"
  by (auto simp: duplicateProps_def)

lemma hoistTemplateProperties_eq:
  assumes "distinct (map fst ps)" and "bt \<in> fst ` set ps" and "plainChildNames ps bt"
  shows "hoistTemplateProperties ps bt
         = Inr (map (\<lambda>e. (fst e,
                   hoistProfile bt (plainFlatten (map properties (childProfiles ps bt)))
                     (duplicateProps (plainFlatten (map properties (childProfiles ps bt))))
                     (fst e) (snd e))) ps,
                duplicateProps (plainFlatten (map properties (childProfiles ps bt))))"
  by (simp add: hoistTemplateProperties_def Let_def flattenProps_plain [OF assms(3)]
        foldE_hoistOne [OF assms(1,2) duplicateProps_subset])

lemma hoistStep_type: "type (hoistStep bt fl n key p) = type p"
  by (simp add: hoistStep_def deleteFromChild_def)

lemma hoistStep_secure: "secure (hoistStep bt fl n key p) = secure p"
  by (simp add: hoistStep_def deleteFromChild_def)

lemma hoistProfile_type: "type (hoistProfile bt fl ns key p) = type p"
  unfolding hoistProfile_def by (induction ns arbitrary: p) (simp_all add: hoistStep_type)

lemma hoistProfile_secure: "secure (hoistProfile bt fl ns key p) = secure p"
  unfolding hoistProfile_def by (induction ns arbitrary: p) (simp_all add: hoistStep_secure)

lemma hoistProfile_isChild: "isChild bt (hoistProfile bt fl ns key p) = isChild bt p"
  by (simp add: isChild_def hoistProfile_type)

lemma delete_spreadAfter: "AList.delete n (spreadAfter n v props) = AList.delete n props"
  by (simp add: spreadAfter_def delete_idem)

lemma hoistStep_child:
  "isChild bt p \<Longrightarrow> properties (hoistStep bt fl n key p) = AList.delete n (properties p)"
  by (simp add: hoistStep_def deleteFromChild_def isChild_def delete_spreadAfter)

lemma hoistStep_isChild: "isChild bt (hoistStep bt fl n key p) = isChild bt p"
  by (simp add: isChild_def hoistStep_type)

lemma hoistProfile_child:
  "isChild bt p \<Longrightarrow>
   properties (hoistProfile bt fl ns key p) = filter (\<lambda>e. fst e \<notin> set ns) (properties p)"
  unfolding hoistProfile_def
proof (induction ns arbitrary: p)
  case Nil
  show ?case by simp
next
  case (Cons n ns)
  have "isChild bt (hoistStep bt fl n key p)" using Cons.prems by (simp add: hoistStep_isChild)
  then have "properties (fold (\<lambda>n. hoistStep bt fl n key) ns (hoistStep bt fl n key p))
        = filter (\<lambda>e. fst e \<notin> set ns) (properties (hoistStep bt fl n key p))"
    by (rule Cons.IH)
  then show ?case
    using Cons.prems
    by (auto simp: hoistStep_child AList.delete_eq intro!: filter_cong)
qed

lemma hoistStep_other:
  "\<not> isChild bt p \<Longrightarrow> key \<noteq> bt \<Longrightarrow> hoistStep bt fl n key p = p"
  by (simp add: hoistStep_def deleteFromChild_def)

lemma hoistProfile_other:
  "\<not> isChild bt p \<Longrightarrow> key \<noteq> bt \<Longrightarrow> hoistProfile bt fl ns key p = p"
  unfolding hoistProfile_def by (induction ns) (simp_all add: hoistStep_other)

lemma map_of_spreadAfter:
  "map_of (spreadAfter n v props) k
     = (if k = n then Some (case map_of props n of None \<Rightarrow> v | Some w \<Rightarrow> w) else map_of props k)"
  by (simp add: spreadAfter_def delete_conv')

lemma hoistStep_base:
  "\<not> isChild bt p \<Longrightarrow>
   map_of (properties (hoistStep bt fl n bt p)) k
     = (if k = n then Some (case map_of (properties p) n of None \<Rightarrow> hoistedValue fl n | Some w \<Rightarrow> w)
        else map_of (properties p) k)"
  by (simp add: hoistStep_def deleteFromChild_def map_of_spreadAfter isChild_def)

lemma hoistProfile_base:
  "\<not> isChild bt p \<Longrightarrow>
   map_of (properties (hoistProfile bt fl ns bt p)) k
     = (if k \<in> set ns
        then Some (case map_of (properties p) k of None \<Rightarrow> hoistedValue fl k | Some w \<Rightarrow> w)
        else map_of (properties p) k)"
  unfolding hoistProfile_def
proof (induction ns arbitrary: p)
  case Nil
  show ?case by simp
next
  case (Cons n ns)
  have nc: "\<not> isChild bt (hoistStep bt fl n bt p)" using Cons.prems by (simp add: hoistStep_isChild)
  show ?case
    using Cons.IH [OF nc] Cons.prems by (auto simp: hoistStep_base)
qed

subsection \<open>Hoisting twice\<close>

lemma observed_filter:
  "observed k (map (filter (\<lambda>e. fst e \<notin> S)) pss) = (if k \<in> S then [] else observed k pss)"
proof -
  have one: "filter (\<lambda>e. fst e = k) (filter (\<lambda>e. fst e \<notin> S) props)
             = (if k \<in> S then [] else filter (\<lambda>e. fst e = k) props)" for props :: jsobj
    by (induction props) auto
  show ?thesis by (induction pss) (simp_all add: observed_def one del: filter_filter)
qed

lemma childProfiles_hoisted:
  "map properties (childProfiles (map (\<lambda>e. (fst e, hoistProfile bt fl ns (fst e) (snd e))) ps) bt)
   = map (filter (\<lambda>e. fst e \<notin> set ns)) (map properties (childProfiles ps bt))"
  unfolding childProfiles_def
  by (induction ps) (simp_all add: hoistProfile_isChild hoistProfile_child)

lemma isDuplicate_Nil: "\<not> isDuplicate []"
  by (simp add: isDuplicate_def)

lemma duplicateProps_hoisted:
  assumes "ns = duplicateProps (plainFlatten pss)"
  shows "duplicateProps (plainFlatten (map (filter (\<lambda>e. fst e \<notin> set ns)) pss)) = []"
proof -
  have "k \<notin> set (duplicateProps (plainFlatten (map (filter (\<lambda>e. fst e \<notin> set ns)) pss)))" for k
  proof (cases "k \<in> set ns")
    case True
    then show ?thesis by (simp add: duplicateProps_iff observed_filter isDuplicate_Nil)
  next
    case False
    then have "\<not> isDuplicate (observed k pss)" by (simp add: assms duplicateProps_iff)
    with False show ?thesis by (simp add: duplicateProps_iff observed_filter)
  qed
  then show ?thesis by (metis list.set_intros(1) neq_Nil_conv)
qed

lemma plainChildNames_hoisted:
  assumes "plainChildNames ps bt"
  shows "plainChildNames (map (\<lambda>e. (fst e, hoistProfile bt fl ns (fst e) (snd e))) ps) bt"
  using assms
  unfolding plainChildNames_properties childProfiles_hoisted
  by (auto simp: list_all_iff)

text \<open>
  Idempotence where the hoister returns. For a profiles map (an object, so with
  distinct keys) that contains the base profile and in which no property of a non-base
  profile is named like a member of \<^verbatim>\<open>Object.prototype\<close>, \<open>hoistTemplateProperties\<close>
  returns normally, and running it again on the profiles it returned yields an empty
  candidate list and the same profiles, unchanged.
\<close>

theorem hoist_idempotent:
  assumes "distinct (map fst ps)" and "baseProfileType \<in> fst ` set ps"
    and "plainChildNames ps baseProfileType"
  shows "\<exists>ps' names. hoistTemplateProperties ps baseProfileType = Inr (ps', names)
           \<and> hoistTemplateProperties ps' baseProfileType = Inr (ps', [])"
proof -
  let ?fl = "plainFlatten (map properties (childProfiles ps baseProfileType))"
  let ?ns = "duplicateProps ?fl"
  let ?ps' = "map (\<lambda>e. (fst e, hoistProfile baseProfileType ?fl ?ns (fst e) (snd e))) ps"
  have first: "hoistTemplateProperties ps baseProfileType = Inr (?ps', ?ns)"
    by (rule hoistTemplateProperties_eq [OF assms])
  have plain: "plainChildNames ?ps' baseProfileType"
    by (rule plainChildNames_hoisted [OF assms(3)])
  have "duplicateProps (plainFlatten (map properties (childProfiles ?ps' baseProfileType))) = []"
    by (simp only: childProfiles_hoisted duplicateProps_hoisted [OF refl])
  then have "hoistTemplateProperties ?ps' baseProfileType = Inr (?ps', [])"
    by (simp add: hoistTemplateProperties_def flattenProps_plain [OF plain])
  with first show ?thesis by blast
qed

lemma sampleProfiles_hoisted:
  "hoistTemplateProperties sampleProfiles ''base'' =
     Inr ([(''base'', \<lparr>type = Some ''base'', properties = [(''host'', JStr ''h'')], secure = Some []\<rparr>),
           (''zosmf'', \<lparr>type = Some ''zosmf'', properties = [(''port'', JNum 443)], secure = Some []\<rparr>),
           (''tso'', \<lparr>type = Some ''tso'', properties = [(''port'', JNum 23)], secure = Some []\<rparr>)],
          [''host''])"
  by (simp add: sampleProfiles_def hoistTemplateProperties_def childProfiles_def isChild_def
      flattenProps_def addFlattened_def inheritedMember_def objectPrototypeMembers_def
      duplicateProps_def isDuplicate_def newSet_def setAdd_def
      sameValueZero_def hoistOne_def spreadAfter_def deleteFromChild_def)

lemma sampleProfiles_plain: "plainChildNames sampleProfiles ''base''"
  by (simp add: plainChildNames_def sampleProfiles_def childProfiles_def isChild_def
      inheritedMember_def objectPrototypeMembers_def)

text \<open>At the sample profiles the first run hoists \<open>host\<close>, the second run hoists nothing
  and returns the profiles of the first.\<close>

theorem hoist_idempotent_sample:
  "distinct (map fst sampleProfiles) \<and> ''base'' \<in> fst ` set sampleProfiles
   \<and> plainChildNames sampleProfiles ''base''
   \<and> (\<exists>ps'. hoistTemplateProperties sampleProfiles ''base'' = Inr (ps', [''host''])
         \<and> map_of ps' ''base''
             = Some \<lparr>type = Some ''base'', properties = [(''host'', JStr ''h'')], secure = Some []\<rparr>
         \<and> hoistTemplateProperties ps' ''base'' = Inr (ps', []))"
proof -
  have d: "distinct (map fst sampleProfiles)" by (simp add: sampleProfiles_def)
  have b: "''base'' \<in> fst ` set sampleProfiles" by (simp add: sampleProfiles_def)
  from hoist_idempotent [OF d b sampleProfiles_plain]
  show ?thesis using d b sampleProfiles_plain by (auto simp: sampleProfiles_hoisted)
qed

text \<open>
  Claim C8 fails on the code when a non-base profile has a property named like a
  member of \<^verbatim>\<open>Object.prototype\<close>. \<open>inheritedNameProfiles\<close> is a profiles map with
  distinct keys that contains the base profile; its profile \<open>a\<close> has the property
  \<open>toString\<close>. The first run reads \<^verbatim>\<open>flattenedProps["toString"]\<close> from the object that
  started as \<^verbatim>\<open>{}\<close>, gets the function that every object inherits, and throws a
  TypeError when it spreads it: no candidate list is returned, by the first run or by
  any other. \<^verbatim>\<open>build\<close> creates these profiles for \<open>inheritedHoistConfig\<close> and throws the
  same error.
\<close>

theorem hoist_inherited_name_throws:
  "distinct (map fst inheritedNameProfiles) \<and> ''base'' \<in> fst ` set inheritedNameProfiles
   \<and> hoistTemplateProperties inheritedNameProfiles ''base''
       = Inl (TypeError ''flattenedProps[k] is not iterable'')
   \<and> buildProfiles True (configuredProfiles inheritedHoistConfig) (emptyConfig, 0)
       = (emptyConfig\<lparr>profiles := inheritedNameProfiles,
                       defaults := [(''base'', ''base''), (''a'', ''a''), (''b'', ''b'')]\<rparr>, 1)
   \<and> build inheritedHoistConfig \<lparr>populateProperties = True, getValueBack = None\<rparr> 0
       = Inl (TypeError ''flattenedProps[k] is not iterable'')"
proof -
  have profs: "buildProfiles True (configuredProfiles inheritedHoistConfig) (emptyConfig, 0)
       = (emptyConfig\<lparr>profiles := inheritedNameProfiles,
                       defaults := [(''base'', ''base''), (''a'', ''a''), (''b'', ''b'')]\<rparr>, 1)"
    by (simp add: inheritedHoistConfig_def inheritedNameProfiles_def emptyConfig_def Let_def
        assignProperty_def readsUndefined_def getDefaultValue_def
        inheritedMember_def objectPrototypeMembers_def)
  have hoist: "hoistTemplateProperties inheritedNameProfiles ''base''
       = Inl (TypeError ''flattenedProps[k] is not iterable'')"
    by (simp add: inheritedNameProfiles_def hoistTemplateProperties_def childProfiles_def
        isChild_def flattenProps_def addFlattened_def inheritedMember_def
        objectPrototypeMembers_def)
  have base: "baseProfile inheritedHoistConfig = Some \<lparr>profType = ''base'', schemaProperties = []\<rparr>"
    by (simp add: inheritedHoistConfig_def Let_def)
  have "build inheritedHoistConfig \<lparr>populateProperties = True, getValueBack = None\<rparr> 0
       = Inl (TypeError ''flattenedProps[k] is not iterable'')"
    by (simp add: build_def profs base hoist)
  with profs hoist show ?thesis by (simp add: inheritedNameProfiles_def)
qed

subsection \<open>What is hoisted, and where it goes\<close>

lemma filter_key_distinct:
  "distinct (map fst props) \<Longrightarrow>
   map snd (filter (\<lambda>e. fst e = k) props) = (case map_of props k of None \<Rightarrow> [] | Some v \<Rightarrow> [v])"
proof (induction props)
  case Nil
  show ?case by simp
next
  case (Cons e props)
  show ?case
  proof (cases "fst e = k")
    case True
    with Cons.prems have "k \<notin> fst ` set props" by auto
    then have "filter (\<lambda>e. fst e = k) props = []" by (auto simp: filter_empty_conv)
    with True show ?thesis by (cases e) simp
  next
    case False
    with Cons show ?thesis by (cases e) simp
  qed
qed

lemma observed_map_filter:
  "list_all (\<lambda>props. distinct (map fst props)) pss \<Longrightarrow>
   observed k pss = List.map_filter (\<lambda>props. map_of props k) pss"
  by (induction pss) (auto simp: observed_def List.map_filter_simps filter_key_distinct split: option.splits)

lemma map_filter_map: "List.map_filter f (map g xs) = List.map_filter (\<lambda>x. f (g x)) xs"
  by (induction xs) (simp_all add: List.map_filter_simps split: option.splits)

lemma wfProfiles_children:
  "wfProfiles ps \<Longrightarrow> list_all (\<lambda>props. distinct (map fst props)) (map properties (childProfiles ps bt))"
  by (auto simp: wfProfiles_def childProfiles_def list_all_iff)

lemma observed_childValues:
  "wfProfiles ps \<Longrightarrow> observed k (map properties (childProfiles ps bt)) = childValues ps bt k"
  by (simp add: observed_map_filter [OF wfProfiles_children] childValues_def map_filter_map)

lemma isDuplicate_allSame: "isDuplicate vs \<longleftrightarrow> 1 < length vs \<and> allSame sameValueZero vs"
proof (cases vs)
  case Nil
  then show ?thesis by (simp add: isDuplicate_def)
next
  case (Cons a as)
  have h: "(\<forall>x\<in>set vs. sameValueZero a x) \<longleftrightarrow> (\<forall>x\<in>set vs. \<forall>y\<in>set vs. sameValueZero x y)"
    unfolding sameValueZero_def using Cons by (metis list.set_intros(1))
  have A: "length (newSet vs) = 1 \<longleftrightarrow> (\<forall>x\<in>set vs. sameValueZero a x)"
    using newSet_size_one [of vs] by (simp only: Cons list.sel list.distinct simp_thms)
  have B: "allSame sameValueZero vs \<longleftrightarrow> (\<forall>x\<in>set vs. \<forall>y\<in>set vs. sameValueZero x y)"
    by (simp add: allSame_def list_all_iff)
  show ?thesis unfolding isDuplicate_def A B h ..
qed

lemma map_of_map_entries:
  "map_of (map (\<lambda>e. (fst e, g (fst e) (snd e))) ps) key = map_option (g key) (map_of ps key)"
  by (induction ps) auto

lemma spreadAfter_distinct:
  "distinct (map fst props) \<Longrightarrow> distinct (map fst (spreadAfter n v props))"
  using delete_notin_dom [of n props] distinct_delete [of props n]
  by (simp add: spreadAfter_def)

lemma hoistStep_distinct:
  "distinct (map fst (properties p)) \<Longrightarrow> distinct (map fst (properties (hoistStep bt fl n key p)))"
  by (simp add: hoistStep_def deleteFromChild_def spreadAfter_distinct distinct_delete)

lemma hoistProfile_distinct:
  "distinct (map fst (properties p)) \<Longrightarrow> distinct (map fst (properties (hoistProfile bt fl ns key p)))"
  unfolding hoistProfile_def by (induction ns arbitrary: p) (simp_all add: hoistStep_distinct)

lemma map_of_filter_notin:
  "map_of (filter (\<lambda>e. fst e \<notin> S) props) k = (if k \<in> S then None else map_of props k)"
  by (induction props) auto

lemma hoistedValue_childValues:
  "wfProfiles ps \<Longrightarrow>
   hoistedValue (plainFlatten (map properties (childProfiles ps bt))) k
     = (case childValues ps bt k of [] \<Rightarrow> JUndefined | x # _ \<Rightarrow> x)"
  by (simp add: hoistedValue_def plainFlatten_get observed_childValues)

text \<open>
  Claim C2, as the code has it. For a profiles map whose objects have distinct keys,
  that contains the base profile key, and in which no property of a non-base profile
  is named like a member of \<^verbatim>\<open>Object.prototype\<close> (with such a name the code throws a
  TypeError, see \<open>inheritedNameProfiles\<close> above), \<open>hoistTemplateProperties\<close> returns
  normally, and
  a property name \<open>k\<close> is among the returned names if and only if more than one
  non-base profile (a profile whose type is not the base profile type) has it and the
  observed values are pairwise the same by SameValueZero: equal primitives, or one and
  the same array or object. Every profile keeps its key, type and secure list. A
  property that is not hoisted is unchanged in every profile. A hoisted property is
  absent from every non-base profile afterwards, and present once in the profile
  stored under the base profile type, when that profile is of the base type: with
  the value that profile already had for it, and otherwise with the first observed
  (shared) value.
\<close>

theorem hoist_candidates_and_effect:
  assumes "wfProfiles ps" and "baseProfileType \<in> fst ` set ps"
    and "plainChildNames ps baseProfileType" and "map_of ps key = Some p"
  shows "\<exists>ps' names p'.
      hoistTemplateProperties ps baseProfileType = Inr (ps', names)
    \<and> (k \<in> set names \<longleftrightarrow>
         1 < length (childValues ps baseProfileType k)
         \<and> allSame sameValueZero (childValues ps baseProfileType k))
    \<and> map fst ps' = map fst ps \<and> map_of ps' key = Some p'
    \<and> type p' = type p \<and> secure p' = secure p \<and> distinct (map fst (properties p'))
    \<and> map_of (properties p') k =
        (if k \<notin> set names then map_of (properties p) k
         else if isChild baseProfileType p then None
         else if key = baseProfileType
           then Some (case map_of (properties p) k of
                        None \<Rightarrow> hd (childValues ps baseProfileType k) | Some w \<Rightarrow> w)
         else map_of (properties p) k)"
proof -
  let ?fl = "plainFlatten (map properties (childProfiles ps baseProfileType))"
  let ?ns = "duplicateProps ?fl"
  let ?g = "hoistProfile baseProfileType ?fl ?ns"
  let ?ps' = "map (\<lambda>e. (fst e, ?g (fst e) (snd e))) ps"
  have dist: "distinct (map fst ps)" using assms(1) by (simp add: wfProfiles_def)
  have run: "hoistTemplateProperties ps baseProfileType = Inr (?ps', ?ns)"
    by (rule hoistTemplateProperties_eq [OF dist assms(2,3)])
  have cand: "k \<in> set ?ns \<longleftrightarrow>
         1 < length (childValues ps baseProfileType k)
         \<and> allSame sameValueZero (childValues ps baseProfileType k)"
    by (simp add: duplicateProps_iff observed_childValues [OF assms(1)] isDuplicate_allSame)
  have keys: "map fst ?ps' = map fst ps" by (simp add: comp_def)
  have look: "map_of ?ps' key = Some (?g key p)"
    by (simp only: map_of_map_entries [of ?g ps key] assms(4) option.map)
  from assms(4) have "(key, p) \<in> set ps" by (rule map_of_SomeD)
  with assms(1) have "distinct (map fst (properties p))"
    by (auto simp: wfProfiles_def list_all_iff)
  then have dp: "distinct (map fst (properties (?g key p)))" by (rule hoistProfile_distinct)
  have hv: "k \<in> set ?ns \<Longrightarrow> hoistedValue ?fl k = hd (childValues ps baseProfileType k)"
    using cand by (cases "childValues ps baseProfileType k")
      (simp_all add: hoistedValue_childValues [OF assms(1)])
  have props: "map_of (properties (?g key p)) k =
        (if k \<notin> set ?ns then map_of (properties p) k
         else if isChild baseProfileType p then None
         else if key = baseProfileType
           then Some (case map_of (properties p) k of
                        None \<Rightarrow> hd (childValues ps baseProfileType k) | Some w \<Rightarrow> w)
         else map_of (properties p) k)"
  proof (cases "isChild baseProfileType p")
    case True
    then show ?thesis by (simp add: hoistProfile_child map_of_filter_notin)
  next
    case nc: False
    show ?thesis
    proof (cases "key = baseProfileType")
      case True
      with nc hv show ?thesis by (auto simp: hoistProfile_base split: option.splits)
    next
      case False
      with nc show ?thesis by (simp add: hoistProfile_other)
    qed
  qed
  show ?thesis
    using run cand keys look dp props hoistProfile_type [of baseProfileType ?fl ?ns key p]
      hoistProfile_secure [of baseProfileType ?fl ?ns key p]
    by blast
qed

text \<open>The theorem at the sample profiles, for the profile \<open>zosmf\<close> and the property
  \<open>host\<close> that both children share.\<close>

theorem hoist_candidates_and_effect_witness:
  "wfProfiles sampleProfiles \<and> ''base'' \<in> fst ` set sampleProfiles
   \<and> plainChildNames sampleProfiles ''base''
   \<and> map_of sampleProfiles ''zosmf''
       = Some \<lparr>type = Some ''zosmf'', properties = [(''host'', JStr ''h''), (''port'', JNum 443)], secure = Some []\<rparr>
   \<and> (\<exists>ps' names p'. hoistTemplateProperties sampleProfiles ''base'' = Inr (ps', names)
         \<and> ''host'' \<in> set names \<and> map_of ps' ''zosmf'' = Some p'
         \<and> map_of (properties p') ''host'' = None)"
proof -
  let ?z = "\<lparr>type = Some ''zosmf'', properties = [(''host'', JStr ''h''), (''port'', JNum 443)], secure = Some []\<rparr>"
  have h1: "wfProfiles sampleProfiles" by (simp add: wfProfiles_def sampleProfiles_def)
  have h2: "''base'' \<in> fst ` set sampleProfiles" by (simp add: sampleProfiles_def)
  have h3: "map_of sampleProfiles ''zosmf'' = Some ?z" by (simp add: sampleProfiles_def)
  have cv: "childValues sampleProfiles ''base'' ''host'' = [JStr ''h'', JStr ''h'']"
    by (simp add: childValues_def childProfiles_def isChild_def sampleProfiles_def List.map_filter_simps)
  have ch: "isChild ''base'' ?z" by (simp add: isChild_def)
  from hoist_candidates_and_effect [OF h1 h2 sampleProfiles_plain h3, of "''host''"]
  obtain ps' names p' where
    run: "hoistTemplateProperties sampleProfiles ''base'' = Inr (ps', names)"
    and cand: "''host'' \<in> set names \<longleftrightarrow>
         1 < length (childValues sampleProfiles ''base'' ''host'')
         \<and> allSame sameValueZero (childValues sampleProfiles ''base'' ''host'')"
    and look: "map_of ps' ''zosmf'' = Some p'"
    and props: "map_of (properties p') ''host'' =
        (if ''host'' \<notin> set names then map_of (properties ?z) ''host''
         else if isChild ''base'' ?z then None
         else if ''zosmf'' = ''base''
           then Some (case map_of (properties ?z) ''host'' of
                        None \<Rightarrow> hd (childValues sampleProfiles ''base'' ''host'') | Some w \<Rightarrow> w)
         else map_of (properties ?z) ''host'')"
    by blast
  from cand have inn: "''host'' \<in> set names"
    by (simp add: cv allSame_def sameValueZero_def)
  with props ch have "map_of (properties p') ''host'' = None" by simp
  with h1 h2 h3 sampleProfiles_plain run inn look show ?thesis by blast
qed

text \<open>
  Claim C2 as stated fails. In \<open>divergingProfiles\<close> the property \<open>x\<close> is an empty object
  in both children, two objects equal by value, so the specification makes it a
  candidate; the code does not hoist it. The property \<open>h\<close> is hoisted, but the base
  profile keeps its own value \<open>2\<close>: the shared value \<open>1\<close> is not inserted.
\<close>

theorem hoist_value_equality_counterexample:
  "specCandidate divergingProfiles ''base'' ''x''
   \<and> hoistTemplateProperties divergingProfiles ''base'' =
       Inr ([(''a'', \<lparr>type = Some ''a'', properties = [(''x'', JObj 1 [])], secure = Some []\<rparr>),
             (''b'', \<lparr>type = Some ''b'', properties = [(''x'', JObj 2 [])], secure = Some []\<rparr>),
             (''base'', \<lparr>type = Some ''base'', properties = [(''h'', JStr ''2'')], secure = Some []\<rparr>)],
            [''h''])"
proof
  show "specCandidate divergingProfiles ''base'' ''x''"
    by (simp add: specCandidate_def childValues_def childProfiles_def isChild_def
        divergingProfiles_def List.map_filter_simps allSame_def valueEq_def)
  show "hoistTemplateProperties divergingProfiles ''base'' =
       Inr ([(''a'', \<lparr>type = Some ''a'', properties = [(''x'', JObj 1 [])], secure = Some []\<rparr>),
             (''b'', \<lparr>type = Some ''b'', properties = [(''x'', JObj 2 [])], secure = Some []\<rparr>),
             (''base'', \<lparr>type = Some ''base'', properties = [(''h'', JStr ''2'')], secure = Some []\<rparr>)],
            [''h''])"
    by (simp add: divergingProfiles_def hoistTemplateProperties_def childProfiles_def isChild_def
      flattenProps_def addFlattened_def inheritedMember_def objectPrototypeMembers_def duplicateProps_def isDuplicate_def newSet_def setAdd_def
      sameValueZero_def hoistOne_def spreadAfter_def deleteFromChild_def)
qed

text \<open>The profiles of the counterexample above are what \<open>build\<close> makes of such an
  application: each default \<^verbatim>\<open>{}\<close> is a new object, and \<open>x\<close> stays in both profiles.\<close>

lemma build_object_defaults_not_hoisted:
  "build objectDefaultsConfig \<lparr>populateProperties = True, getValueBack = None\<rparr> 1 =
     Inr \<lparr>defaults = [(''a'', ''a''), (''b'', ''b''), (''base'', ''base'')],
          profiles = [(''a'', \<lparr>type = Some ''a'', properties = [(''x'', JObj 1 [])], secure = Some []\<rparr>),
                      (''b'', \<lparr>type = Some ''b'', properties = [(''x'', JObj 2 [])], secure = Some []\<rparr>),
                      (''base'', \<lparr>type = Some ''base'', properties = [], secure = Some []\<rparr>)],
          plugins = [], configSecure = [], configProperties = [], autoStore = Some True\<rparr>"
  by (simp add: build_def objectDefaultsConfig_def emptyConfig_def Let_def getDefaultValue_def
      assignProperty_def readsUndefined_def
      hoistTemplateProperties_def childProfiles_def isChild_def flattenProps_def addFlattened_def
      inheritedMember_def objectPrototypeMembers_def
      duplicateProps_def isDuplicate_def newSet_def setAdd_def sameValueZero_def)

subsection \<open>The property renamer\<close>

lemma firstConversion_Some:
  "firstConversion n cs = Some (a, b) \<Longrightarrow> a = n \<and> (a, b) \<in> set cs"
  by (induction n cs rule: firstConversion.induct) (auto split: if_splits)

lemma firstConversion_None: "firstConversion n cs = None \<longleftrightarrow> n \<notin> fst ` set cs"
  by (induction n cs rule: firstConversion.induct) auto

lemma nameConversions_old_not_new:
  "(a, b) \<in> set nameConversions \<Longrightarrow> (c, d) \<in> set nameConversions \<Longrightarrow> a \<noteq> d"
  by (auto simp: nameConversions_def)

lemma nameConversions_inj:
  "(a, b) \<in> set nameConversions \<Longrightarrow> (c, b) \<in> set nameConversions \<Longrightarrow> a = c"
  by (auto simp: nameConversions_def)

lemma nameConversions_fun:
  "(a, b) \<in> set nameConversions \<Longrightarrow> firstConversion a nameConversions = Some (a, b)"
  by (auto simp: nameConversions_def)

lemma map_of_applyConversion:
  "map_of (applyConversion (a, b, v) q) k
     = (if k = b then Some v else if k = a then None else map_of q k)"
  by (simp add: applyConversion_def update_conv' delete_conv')

lemma fold_applyConversion_lookup:
  assumes "\<forall>c\<in>set st. (fst c, fst (snd c)) \<in> set nameConversions" and "distinct (map fst st)"
  shows "map_of (fold applyConversion st q) k
         = (if k \<in> fst ` set st then None
            else case find (\<lambda>c. fst (snd c) = k) st of
                   Some c \<Rightarrow> Some (snd (snd c))
                 | None \<Rightarrow> map_of q k)"
  using assms
proof (induction st arbitrary: q)
  case Nil
  show ?case by simp
next
  case (Cons c st)
  obtain a b v where c: "c = (a, b, v)" by (cases c)
  from Cons.prems have ab: "(a, b) \<in> set nameConversions"
    and rest: "\<forall>c\<in>set st. (fst c, fst (snd c)) \<in> set nameConversions"
    and a_fresh: "a \<notin> fst ` set st" and dist: "distinct (map fst st)"
    by (auto simp: c)
  have no_a: "find (\<lambda>c. fst (snd c) = a) st = None"
    using rest ab by (auto simp: find_None_iff dest: nameConversions_old_not_new)
  have no_b: "find (\<lambda>c. fst (snd c) = b) st = None"
  proof (rule ccontr)
    assume "find (\<lambda>c. fst (snd c) = b) st \<noteq> None"
    then obtain c' where "c' \<in> set st" and "fst (snd c') = b"
      by (auto simp: find_None_iff)
    with rest have "(fst c', b) \<in> set nameConversions" by auto
    with ab have "fst c' = a" by (auto dest: nameConversions_inj)
    with \<open>c' \<in> set st\<close> a_fresh show False by auto
  qed
  have b_not_old: "b \<notin> fst ` set st"
    using rest ab by (auto dest: nameConversions_old_not_new)
  have ab_ne: "a \<noteq> b" using ab by (auto dest: nameConversions_old_not_new)
  have "map_of (fold applyConversion st (applyConversion (a, b, v) q)) k
        = (if k \<in> fst ` set st then None
            else case find (\<lambda>c. fst (snd c) = k) st of
                   Some c \<Rightarrow> Some (snd (snd c))
                 | None \<Rightarrow> map_of (applyConversion (a, b, v) q) k)"
    by (rule Cons.IH [OF rest dist])
  then show ?case
    using no_a no_b b_not_old a_fresh ab_ne
    by (auto simp: c map_of_applyConversion split: option.splits)
qed

lemma profPropsToConvert_keys:
  "map fst (profPropsToConvert props) = filter (\<lambda>k. k \<in> fst ` set nameConversions) (map fst props)"
proof (induction props rule: profPropsToConvert.induct)
  case 1
  show ?case by simp
next
  case (2 k v rest)
  show ?case
  proof (cases "firstConversion k nameConversions")
    case None
    then have "k \<notin> fst ` set nameConversions" by (simp add: firstConversion_None)
    with "2.IH"(1) [OF None] None show ?thesis by simp
  next
    case (Some ab)
    obtain a b where ab: "ab = (a, b)" by (cases ab)
    from Some ab have "a = k" and "(a, b) \<in> set nameConversions"
      by (auto dest: firstConversion_Some)
    then have "k \<in> fst ` set nameConversions" by force
    with "2.IH"(2) [OF Some ab [symmetric]] Some ab \<open>a = k\<close> show ?thesis by simp
  qed
qed

lemma profPropsToConvert_valid:
  "c \<in> set (profPropsToConvert props) \<Longrightarrow> (fst c, fst (snd c)) \<in> set nameConversions"
proof (induction props rule: profPropsToConvert.induct)
  case 1
  then show ?case by simp
next
  case (2 k v rest)
  then show ?case
    by (auto split: option.splits dest: firstConversion_Some)
qed

lemma profPropsToConvert_find_new:
  assumes "distinct (map fst props)" and "(a, b) \<in> set nameConversions"
  shows "find (\<lambda>c. fst (snd c) = b) (profPropsToConvert props)
         = map_option (\<lambda>v. (a, b, v)) (map_of props a)"
  using assms(1)
proof (induction props rule: profPropsToConvert.induct)
  case 1
  show ?case by simp
next
  case (2 k v rest)
  from "2.prems" have dist: "distinct (map fst rest)" and fresh: "k \<notin> fst ` set rest" by auto
  show ?case
  proof (cases "firstConversion k nameConversions")
    case None
    then have "k \<noteq> a" using assms(2) by (force simp: firstConversion_None)
    with None "2.IH"(1) dist show ?thesis by simp
  next
    case (Some cd)
    obtain c d where cd: "cd = (c, d)" by (cases cd)
    from Some cd have ck: "c = k" and in_t: "(c, d) \<in> set nameConversions"
      by (auto dest: firstConversion_Some)
    show ?thesis
    proof (cases "d = b")
      case True
      with in_t assms(2) have "c = a" by (auto dest: nameConversions_inj)
      with Some cd True ck show ?thesis by simp
    next
      case False
      have "k \<noteq> a"
      proof
        assume "k = a"
        with assms(2) have "firstConversion k nameConversions = Some (a, b)"
          by (simp add: nameConversions_fun)
        with Some cd False show False by simp
      qed
      with Some cd False "2.IH"(2) [OF Some cd [symmetric]] dist show ?thesis by simp
    qed
  qed
qed

lemma profPropsToConvert_find_other:
  assumes "k \<notin> snd ` set nameConversions"
  shows "find (\<lambda>c. fst (snd c) = k) (profPropsToConvert props) = None"
proof -
  have "fst (snd c) \<noteq> k" if "c \<in> set (profPropsToConvert props)" for c
    using profPropsToConvert_valid [OF that] assms by force
  then show ?thesis unfolding find_None_iff by blast
qed

lemma map_of_None_iff_keys: "map_of xs k = None \<longleftrightarrow> k \<notin> fst ` set xs"
  by (simp add: map_of_eq_None_iff)

lemma convertProperties_old:
  assumes "distinct (map fst props)" and "(a, b) \<in> set nameConversions"
  shows "map_of (convertProperties props) a = None"
proof -
  have d: "distinct (map fst (profPropsToConvert props))"
    using assms(1) by (simp add: profPropsToConvert_keys)
  have v: "\<forall>c\<in>set (profPropsToConvert props). (fst c, fst (snd c)) \<in> set nameConversions"
    by (auto dest: profPropsToConvert_valid)
  have not_new: "a \<notin> snd ` set nameConversions"
    using assms(2) by (auto dest: nameConversions_old_not_new)
  have a_old: "a \<in> fst ` set nameConversions" using assms(2) by force
  have "a \<notin> fst ` set (profPropsToConvert props) \<Longrightarrow> map_of props a = None"
  proof -
    assume "a \<notin> fst ` set (profPropsToConvert props)"
    then have "a \<notin> set (map fst (profPropsToConvert props))" by simp
    then have "a \<notin> set (map fst props)" using a_old by (simp add: profPropsToConvert_keys)
    then show ?thesis by (simp add: map_of_None_iff_keys)
  qed
  then show ?thesis
    unfolding convertProperties_def
    by (simp add: fold_applyConversion_lookup [OF v d] profPropsToConvert_find_other [OF not_new])
qed

lemma convertProperties_new:
  assumes "distinct (map fst props)" and "(a, b) \<in> set nameConversions"
  shows "map_of (convertProperties props) b
         = (case map_of props a of Some v \<Rightarrow> Some v | None \<Rightarrow> map_of props b)"
proof -
  have d: "distinct (map fst (profPropsToConvert props))"
    using assms(1) by (simp add: profPropsToConvert_keys)
  have v: "\<forall>c\<in>set (profPropsToConvert props). (fst c, fst (snd c)) \<in> set nameConversions"
    by (auto dest: profPropsToConvert_valid)
  have "b \<notin> fst ` set nameConversions"
    using assms(2) by (auto dest: nameConversions_old_not_new)
  then have "b \<notin> set (map fst (profPropsToConvert props))"
    by (simp add: profPropsToConvert_keys)
  then have nb: "b \<notin> fst ` set (profPropsToConvert props)" by simp
  show ?thesis
    unfolding convertProperties_def
    by (simp add: fold_applyConversion_lookup [OF v d] nb profPropsToConvert_find_new [OF assms]
        split: option.splits)
qed

lemma convertProperties_other:
  assumes "k \<notin> fst ` set nameConversions" and "k \<notin> snd ` set nameConversions"
  shows "map_of (convertProperties props) k = map_of props k"
proof -
  have rec: "map_of (fold applyConversion st q) k = map_of q k"
    if "\<forall>c\<in>set st. (fst c, fst (snd c)) \<in> set nameConversions" for st q
    using that
  proof (induction st arbitrary: q)
    case Nil
    show ?case by simp
  next
    case (Cons c st)
    obtain a b v where c: "c = (a, b, v)" by (cases c)
    with Cons.prems have "(a, b) \<in> set nameConversions" by simp
    with assms have "k \<noteq> a" and "k \<noteq> b" by force+
    with Cons show ?case by (simp add: c map_of_applyConversion)
  qed
  show ?thesis
    unfolding convertProperties_def by (rule rec) (auto dest: profPropsToConvert_valid)
qed

lemma applyConversion_distinct:
  "distinct (map fst q) \<Longrightarrow> distinct (map fst (applyConversion c q))"
  by (cases c) (simp add: applyConversion_def distinct_update distinct_delete)

lemma convertProperties_distinct:
  assumes "distinct (map fst props)"
  shows "distinct (map fst (convertProperties props))"
proof -
  have "distinct (map fst (fold applyConversion st q))" if "distinct (map fst q)" for st q
    using that by (induction st arbitrary: q) (simp_all add: applyConversion_distinct)
  with assms show ?thesis by (simp add: convertProperties_def)
qed

lemma profPropsToConvert_Nil:
  assumes "\<forall>k\<in>fst ` set props. k \<notin> fst ` set nameConversions"
  shows "profPropsToConvert props = []"
proof -
  have "map fst (profPropsToConvert props) = []"
    using assms by (simp add: profPropsToConvert_keys filter_empty_conv)
  then show ?thesis by simp
qed

lemma convertProperties_idem:
  assumes "distinct (map fst props)"
  shows "convertProperties (convertProperties props) = convertProperties props"
proof -
  have "k \<notin> fst ` set nameConversions" if "k \<in> fst ` set (convertProperties props)" for k
  proof
    assume "k \<in> fst ` set nameConversions"
    then obtain b where "(k, b) \<in> set nameConversions" by auto
    then have "map_of (convertProperties props) k = None"
      by (rule convertProperties_old [OF assms])
    with that show False by (simp add: map_of_None_iff_keys)
  qed
  then have "profPropsToConvert (convertProperties props) = []"
    by (intro profPropsToConvert_Nil) blast
  then show ?thesis by (simp add: convertProperties_def [of "convertProperties props"])
qed

lemma convertSecureName_not_old:
  "convertSecureName s \<notin> fst ` set nameConversions"
  by (auto simp: convertSecureName_def nameConversions_def)

lemma convertSecureName_idem: "convertSecureName (convertSecureName s) = convertSecureName s"
  by (auto simp: convertSecureName_def nameConversions_def)

subsection \<open>Renaming the whole result\<close>

lemma convertProfilePropNames_eq:
  "secure p \<noteq> None \<Longrightarrow> convertProfilePropNames p = Inr (renamedProfile p)"
  by (auto simp: convertProfilePropNames_def renamedProfile_def)

lemma convertProfilesPropNames_eq:
  "allHaveSecure ps \<Longrightarrow>
   convertProfilesPropNames ps = Inr (map (\<lambda>e. (fst e, (\<lambda>k. renamedProfile) (fst e) (snd e))) ps)"
  unfolding allHaveSecure_def
  by (induction ps rule: convertProfilesPropNames.induct) (simp_all add: convertProfilePropNames_eq)

lemma renamedProfile_idem:
  "distinct (map fst (properties p)) \<Longrightarrow> renamedProfile (renamedProfile p) = renamedProfile p"
  by (cases "secure p")
     (simp_all add: renamedProfile_def convertProperties_idem convertSecureName_idem)

lemma renamedProfile_secure: "secure (renamedProfile p) \<noteq> None \<longleftrightarrow> secure p \<noteq> None"
  by (simp add: renamedProfile_def)

lemma convertProfilesPropNames_idem:
  assumes "wfProfiles ps" and "allHaveSecure ps"
  shows "convertProfilesPropNames (map (\<lambda>e. (fst e, renamedProfile (snd e))) ps)
         = Inr (map (\<lambda>e. (fst e, renamedProfile (snd e))) ps)"
proof -
  let ?ps' = "map (\<lambda>e. (fst e, renamedProfile (snd e))) ps"
  have "allHaveSecure ?ps'"
    using assms(2) by (auto simp: allHaveSecure_def list_all_iff renamedProfile_def)
  then have "convertProfilesPropNames ?ps' = Inr (map (\<lambda>e. (fst e, renamedProfile (snd e))) ?ps')"
    by (simp add: convertProfilesPropNames_eq)
  moreover have "map (\<lambda>e. (fst e, renamedProfile (snd e))) ?ps' = ?ps'"
    using assms(1) by (simp add: wfProfiles_def list_all_iff renamedProfile_idem)
  ultimately show ?thesis by simp
qed

lemma convertPropNames_eq:
  assumes "allHaveSecure (profiles (config r))"
  shows "convertPropNames r
         = Inr (r\<lparr>config := (config r)\<lparr>profiles := map (\<lambda>e. (fst e, renamedProfile (snd e))) (profiles (config r))\<rparr>\<rparr>)"
  by (simp add: convertPropNames_def convertProfilesPropNames_eq [OF assms])

lemma convertPropNames_twice:
  assumes "wfProfiles (profiles (config r))" and "allHaveSecure (profiles (config r))"
  shows "\<exists>r'. convertPropNames r = Inr r' \<and> convertPropNames r' = Inr r'
           \<and> profiles (config r') = map (\<lambda>e. (fst e, renamedProfile (snd e))) (profiles (config r))"
proof -
  let ?r' = "r\<lparr>config := (config r)\<lparr>profiles := map (\<lambda>e. (fst e, renamedProfile (snd e))) (profiles (config r))\<rparr>\<rparr>"
  have 1: "convertPropNames r = Inr ?r'" by (rule convertPropNames_eq [OF assms(2)])
  have 2: "convertPropNames ?r' = Inr ?r'"
    by (simp add: convertPropNames_def convertProfilesPropNames_idem [OF assms])
  show ?thesis by (rule exI [of _ ?r']) (simp add: 1 2)
qed

lemma convertPropNames_profile:
  assumes "wfProfiles (profiles (config r))" and "allHaveSecure (profiles (config r))"
    and "map_of (profiles (config r)) key = Some p"
  shows "\<exists>r'. convertPropNames r = Inr r' \<and> convertPropNames r' = Inr r'
           \<and> map fst (profiles (config r')) = map fst (profiles (config r))
           \<and> map_of (profiles (config r')) key = Some (renamedProfile p)
           \<and> distinct (map fst (properties p))"
proof -
  from convertPropNames_twice [OF assms(1,2)] obtain r' where
    r': "convertPropNames r = Inr r'" "convertPropNames r' = Inr r'"
    "profiles (config r') = map (\<lambda>e. (fst e, renamedProfile (snd e))) (profiles (config r))"
    by blast
  have "map_of (profiles (config r')) key = Some (renamedProfile p)"
    using map_of_map_entries [of "\<lambda>k. renamedProfile" "profiles (config r)" key]
    by (simp add: r'(3) assms(3))
  moreover have "map fst (profiles (config r')) = map fst (profiles (config r))"
    by (simp add: r'(3) comp_def)
  moreover from assms(3) have "(key, p) \<in> set (profiles (config r))" by (rule map_of_SomeD)
  with assms(1) have "distinct (map fst (properties p))"
    by (auto simp: wfProfiles_def list_all_iff)
  ultimately show ?thesis using r'(1,2) by blast
qed

text \<open>
  Claim C9. For a conversion result whose objects have distinct keys and whose
  profiles all carry a secure list (as \<open>convert\<close> builds them), the renamer returns
  normally, and for every profile and every rule \<open>(oldPropName, newPropName)\<close> of the
  table: no key \<open>oldPropName\<close> is left in the properties; the value that was under
  \<open>oldPropName\<close>, when there was one, is now under \<open>newPropName\<close>; a property whose
  name is neither an old nor a new name is unchanged; the secure list is the old
  one with every entry renamed by the first matching rule, so it holds no old name.
  Running the renamer again on its own result returns that result unchanged.
\<close>

theorem convertPropNames_renames:
  assumes "wfProfiles (profiles (config r))" and "allHaveSecure (profiles (config r))"
    and "map_of (profiles (config r)) key = Some p"
    and "(oldPropName, newPropName) \<in> set nameConversions"
  shows "\<exists>r' p' s.
      convertPropNames r = Inr r' \<and> convertPropNames r' = Inr r'
    \<and> map fst (profiles (config r')) = map fst (profiles (config r))
    \<and> map_of (profiles (config r')) key = Some p' \<and> type p' = type p
    \<and> map_of (properties p') oldPropName = None
    \<and> map_of (properties p') newPropName
        = (case map_of (properties p) oldPropName of
             Some v \<Rightarrow> Some v | None \<Rightarrow> map_of (properties p) newPropName)
    \<and> (k \<notin> fst ` set nameConversions \<union> snd ` set nameConversions
         \<longrightarrow> map_of (properties p') k = map_of (properties p) k)
    \<and> secure p = Some s \<and> secure p' = Some (map convertSecureName s)
    \<and> oldPropName \<notin> set (map convertSecureName s)
    \<and> convertSecureName oldPropName = newPropName
    \<and> (k \<notin> fst ` set nameConversions \<longrightarrow> convertSecureName k = k)"
proof -
  from convertPropNames_profile [OF assms(1-3)] obtain r' where
    r': "convertPropNames r = Inr r'" "convertPropNames r' = Inr r'"
      "map fst (profiles (config r')) = map fst (profiles (config r))"
      "map_of (profiles (config r')) key = Some (renamedProfile p)"
    and dp: "distinct (map fst (properties p))"
    by blast
  from assms(3) have "(key, p) \<in> set (profiles (config r))" by (rule map_of_SomeD)
  with assms(2) obtain s where s: "secure p = Some s"
    by (auto simp: allHaveSecure_def list_all_iff)
  have old_in: "oldPropName \<in> fst ` set nameConversions" using assms(4) by force
  have "type (renamedProfile p) = type p" by (simp add: renamedProfile_def)
  moreover have "map_of (properties (renamedProfile p)) oldPropName = None"
    by (simp add: renamedProfile_def convertProperties_old [OF dp assms(4)])
  moreover have "map_of (properties (renamedProfile p)) newPropName
        = (case map_of (properties p) oldPropName of
             Some v \<Rightarrow> Some v | None \<Rightarrow> map_of (properties p) newPropName)"
    by (simp add: renamedProfile_def convertProperties_new [OF dp assms(4)])
  moreover have "k \<notin> fst ` set nameConversions \<union> snd ` set nameConversions
         \<longrightarrow> map_of (properties (renamedProfile p)) k = map_of (properties p) k"
    by (simp add: renamedProfile_def convertProperties_other)
  moreover have "secure (renamedProfile p) = Some (map convertSecureName s)"
    by (simp add: renamedProfile_def s)
  moreover have "oldPropName \<notin> set (map convertSecureName s)"
  proof
    assume "oldPropName \<in> set (map convertSecureName s)"
    then obtain x where "oldPropName = convertSecureName x" by auto
    with old_in convertSecureName_not_old [of x] show False by simp
  qed
  moreover have "convertSecureName oldPropName = newPropName"
    by (simp add: convertSecureName_def nameConversions_fun [OF assms(4)])
  moreover have "k \<notin> fst ` set nameConversions \<longrightarrow> convertSecureName k = k"
    by (simp add: convertSecureName_def firstConversion_None [symmetric])
  ultimately show ?thesis using r' s by blast
qed

text \<open>
  Claim C10. When a profile has both a deprecated name and its current name as keys,
  with values \<open>v\<close> and \<open>w\<close>, the renamer deletes the deprecated key and stores \<open>v\<close>
  under the current name; the value \<open>w\<close> that was there is lost (when it differs from
  \<open>v\<close>, the current name no longer holds it).
\<close>

theorem convertPropNames_overwrites:
  assumes "wfProfiles (profiles (config r))" and "allHaveSecure (profiles (config r))"
    and "map_of (profiles (config r)) key = Some p"
    and "(oldPropName, newPropName) \<in> set nameConversions"
    and "map_of (properties p) oldPropName = Some v"
    and "map_of (properties p) newPropName = Some w"
  shows "\<exists>r' p'.
      convertPropNames r = Inr r' \<and> map_of (profiles (config r')) key = Some p'
    \<and> oldPropName \<notin> fst ` set (properties p')
    \<and> map_of (properties p') newPropName = Some v
    \<and> (w \<noteq> v \<longrightarrow> (newPropName, w) \<notin> set (properties p'))"
proof -
  from convertPropNames_profile [OF assms(1-3)] obtain r' where
    r': "convertPropNames r = Inr r'"
      "map_of (profiles (config r')) key = Some (renamedProfile p)"
    and dp: "distinct (map fst (properties p))"
    by blast
  have dp': "distinct (map fst (properties (renamedProfile p)))"
    using dp by (simp add: renamedProfile_def convertProperties_distinct)
  have "map_of (properties (renamedProfile p)) oldPropName = None"
    by (simp add: renamedProfile_def convertProperties_old [OF dp assms(4)])
  then have gone: "oldPropName \<notin> fst ` set (properties (renamedProfile p))"
    by (simp add: map_of_None_iff_keys)
  have new: "map_of (properties (renamedProfile p)) newPropName = Some v"
    by (simp add: renamedProfile_def convertProperties_new [OF dp assms(4)] assms(5))
  have "w \<noteq> v \<longrightarrow> (newPropName, w) \<notin> set (properties (renamedProfile p))"
    using new map_of_is_SomeI [OF dp', of newPropName w] by auto
  with r' gone new show ?thesis by blast
qed

lemma legacyResult_wf: "wfProfiles (profiles (config legacyResult))"
  by (simp add: legacyResult_def wfProfiles_def)

lemma legacyResult_secure: "allHaveSecure (profiles (config legacyResult))"
  by (simp add: legacyResult_def allHaveSecure_def)

lemma legacyResult_lookup: "map_of (profiles (config legacyResult)) ''zosmf_lpar1'' = Some legacyProfile"
  by (simp add: legacyResult_def legacyProfile_def)

lemma hostname_rule: "(''hostname'', ''host'') \<in> set nameConversions"
  by (simp add: nameConversions_def)

text \<open>The renaming theorem at \<open>legacyResult\<close>, for the rule hostname to host and the
  untouched property \<open>port\<close>.\<close>

theorem convertPropNames_renames_witness:
  "wfProfiles (profiles (config legacyResult)) \<and> allHaveSecure (profiles (config legacyResult))
   \<and> map_of (profiles (config legacyResult)) ''zosmf_lpar1'' = Some legacyProfile
   \<and> (''hostname'', ''host'') \<in> set nameConversions
   \<and> (\<exists>r' p'. convertPropNames legacyResult = Inr r' \<and> convertPropNames r' = Inr r'
         \<and> map_of (profiles (config r')) ''zosmf_lpar1'' = Some p'
         \<and> map_of (properties p') ''hostname'' = None
         \<and> map_of (properties p') ''host'' = Some (JStr ''a'')
         \<and> map_of (properties p') ''port'' = Some (JNum 443)
         \<and> secure p' = Some [''password'', ''port''])"
proof -
  from convertPropNames_renames
    [OF legacyResult_wf legacyResult_secure legacyResult_lookup hostname_rule, of "''port''"]
  obtain r' p' s where
    run: "convertPropNames legacyResult = Inr r'" "convertPropNames r' = Inr r'"
      "map_of (profiles (config r')) ''zosmf_lpar1'' = Some p'"
    and old: "map_of (properties p') ''hostname'' = None"
    and new: "map_of (properties p') ''host''
        = (case map_of (properties legacyProfile) ''hostname'' of
             Some v \<Rightarrow> Some v | None \<Rightarrow> map_of (properties legacyProfile) ''host'')"
    and other: "''port'' \<notin> fst ` set nameConversions \<union> snd ` set nameConversions
         \<longrightarrow> map_of (properties p') ''port'' = map_of (properties legacyProfile) ''port''"
    and sec: "secure legacyProfile = Some s" "secure p' = Some (map convertSecureName s)"
    by blast
  from new have new': "map_of (properties p') ''host'' = Some (JStr ''a'')"
    by (simp add: legacyProfile_def)
  from other have other': "map_of (properties p') ''port'' = Some (JNum 443)"
    by (simp add: legacyProfile_def nameConversions_def)
  from sec have sec': "secure p' = Some [''password'', ''port'']"
    by (auto simp: legacyProfile_def convertSecureName_def nameConversions_def)
  from run old new' other' sec' legacyResult_wf legacyResult_secure legacyResult_lookup hostname_rule
  show ?thesis by blast
qed

text \<open>The overwriting theorem at \<open>legacyResult\<close>: \<open>host\<close> ends with the value of
  \<open>hostname\<close>.\<close>

theorem convertPropNames_overwrites_witness:
  "wfProfiles (profiles (config legacyResult)) \<and> allHaveSecure (profiles (config legacyResult))
   \<and> map_of (profiles (config legacyResult)) ''zosmf_lpar1'' = Some legacyProfile
   \<and> (''hostname'', ''host'') \<in> set nameConversions
   \<and> map_of (properties legacyProfile) ''hostname'' = Some (JStr ''a'')
   \<and> map_of (properties legacyProfile) ''host'' = Some (JStr ''b'')
   \<and> (\<exists>r' p'. convertPropNames legacyResult = Inr r'
         \<and> map_of (profiles (config r')) ''zosmf_lpar1'' = Some p'
         \<and> ''hostname'' \<notin> fst ` set (properties p')
         \<and> map_of (properties p') ''host'' = Some (JStr ''a'')
         \<and> (''host'', JStr ''b'') \<notin> set (properties p'))"
proof -
  have v: "map_of (properties legacyProfile) ''hostname'' = Some (JStr ''a'')"
    by (simp add: legacyProfile_def)
  have w: "map_of (properties legacyProfile) ''host'' = Some (JStr ''b'')"
    by (simp add: legacyProfile_def)
  from convertPropNames_overwrites
    [OF legacyResult_wf legacyResult_secure legacyResult_lookup hostname_rule v w]
  obtain r' p' where
    "convertPropNames legacyResult = Inr r'"
    "map_of (profiles (config r')) ''zosmf_lpar1'' = Some p'"
    "''hostname'' \<notin> fst ` set (properties p')"
    "map_of (properties p') ''host'' = Some (JStr ''a'')"
    "JStr ''b'' \<noteq> JStr ''a'' \<longrightarrow> (''host'', JStr ''b'') \<notin> set (properties p')"
    by blast
  moreover have "JStr ''b'' \<noteq> JStr ''a''" by simp
  ultimately show ?thesis
    using legacyResult_wf legacyResult_secure legacyResult_lookup hostname_rule v w by blast
qed

subsection \<open>Assignments to plain objects\<close>








subsection \<open>Legacy conversion: what each profile and meta file leaves in the result\<close>























subsection \<open>Legacy conversion: failures are isolated\<close>

















text \<open>A profile type named like a member of \<^verbatim>\<open>Object.prototype\<close>: in \<open>constructorWorld\<close>
  the profile \<open>a\<close> reads and its secret resolves, it is stored in the config, and it is
  recorded as failed, with the TypeError of the spread, and not as converted.\<close>

lemma convert_inherited_type_name:
  "convert constructorWorld =
     Inr \<lparr>config = \<lparr>defaults = [(''constructor'', ''constructor_a'')],
                     profiles = [(''constructor_a'',
                                  \<lparr>type = Some ''constructor'',
                                   properties = [(''host'', JStr ''h''), (''password'', JStr ''pw'')],
                                   secure = Some [''password'']\<rparr>)],
                     plugins = [], configSecure = [], configProperties = [],
                     autoStore = Some True\<rparr>,
           profilesConverted = [],
           profilesFailed =
             [\<lparr>failedName = Some ''a'', failedType = ''constructor'',
               failedError = TypeError ''result.profilesConverted[profileType] is not iterable''\<rparr>]\<rparr>"
proof -
  have dirs: "getAllProfileDirectories constructorWorld = Inr [''constructor'']"
    and names: "getAllProfileNames constructorWorld ''constructor'' = Inr [''a'']"
    and meta: "readMetaFile constructorWorld ''constructor'' = Inr (Some ''a'')"
    and key: "getProfileMapKey constructorWorld ''constructor'' ''a'' = ''constructor_a''"
    by (simp_all add: constructorWorld_def sampleWorld_def)
  have a: "readLegacyProfile constructorWorld ''constructor'' ''a''
     = Inr \<lparr>type = Some ''constructor'',
            properties = [(''hostname'', JStr ''h''), (''pass'', JStr ''pw'')],
            secure = Some [''pass'']\<rparr>"
    by (simp add: readLegacyProfile_def constructorWorld_def sampleWorld_def toStringMethod_def
        startsWith_def)
  show ?thesis
    by (simp add: convert_def dirs convertType_def names convertProfile_def a
        convertMeta_def meta key emptyConfig_def Let_def
        assignProperty_def inheritedMember_def objectPrototypeMembers_def
        convertPropNames_def convertProfilePropNames_def convertProperties_def
        nameConversions_def applyConversion_def convertSecureName_def)
qed

subsection \<open>Building a config: where the callback's values go\<close>

text \<open>A template property that is named like a member of \<^verbatim>\<open>Object.prototype\<close> gets no
  empty default: \<open>toString\<close> is not stored, \<open>valueOf\<close> is stored with the default of its
  option definition.\<close>

lemma build_inherited_name_no_default:
  "build inheritedNameConfig \<lparr>populateProperties = True, getValueBack = None\<rparr> 0 =
     Inr \<lparr>defaults = [(''zosmf'', ''zosmf'')],
          profiles = [(''zosmf'', \<lparr>type = Some ''zosmf'', properties = [(''valueOf'', JStr ''v'')],
                                   secure = Some []\<rparr>)],
          plugins = [], configSecure = [], configProperties = [], autoStore = Some True\<rparr>"
  by (simp add: build_def inheritedNameConfig_def emptyConfig_def assignProperty_def
      readsUndefined_def inheritedMember_def objectPrototypeMembers_def)

text \<open>
  Claim C3 fails on the code when the base profile type is not named \<open>base\<close>. With
  \<open>my_base\<close> as the base profile type, the value the callback returns for \<open>host\<close> is
  not written into the properties of the profile stored under \<open>my_base\<close>, which stay
  empty: the path of \<^verbatim>\<open>lodash.set\<close> names the key \<open>base\<close>, and a new object is created
  there.
\<close>

theorem build_getValueBack_hardcoded_base:
  "build myBaseConfig hostBackOpts 0 =
     Inr \<lparr>defaults = [(''my_base'', ''my_base'')],
          profiles = [(''my_base'', \<lparr>type = Some ''my_base'', properties = [], secure = Some [''host'']\<rparr>),
                      (''base'', \<lparr>type = None, properties = [(''host'', JStr ''example.com'')], secure = None\<rparr>)],
          plugins = [], configSecure = [], configProperties = [], autoStore = Some True\<rparr>"
  by (simp add: build_def myBaseConfig_def myBaseType_def hostBackOpts_def emptyConfig_def
      assignProperty_def
      hoistTemplateProperties_def childProfiles_def isChild_def flattenProps_def duplicateProps_def
      valueBack_def setBaseProperty_def)

subsection \<open>Secure names and properties in a built config\<close>












subsection \<open>Secure names and properties in a converted config\<close>












subsection \<open>Secure names and properties: the claim\<close>







subsection \<open>The auth handler\<close>

lemma logoutValidation_None:
  "logoutValidation args = None \<longleftrightarrow>
     \<not> absent (tokenType args) \<and> \<not> absent (tokenValue args) \<and> \<not> absent (host args) \<and> \<not> absent (port args)"
  by (auto simp: logoutValidation_def toNotBeNullOrUndefined_def absent_def split: option.splits)

lemma toNotBeNullOrUndefined_absent:
  "toNotBeNullOrUndefined v msg = (if absent v then Some (ImperativeError msg) else None)"
  by (simp add: toNotBeNullOrUndefined_def absent_def)

lemma logoutValidation_Some:
  assumes "logoutValidation args = Some e"
  shows "\<exists>msg. e = ImperativeError msg \<and> msg \<in> set logoutMessages"
proof -
  consider (a) "absent (tokenType args)"
    | (b) "\<not> absent (tokenType args)" "absent (tokenValue args)"
    | (c) "\<not> absent (tokenType args)" "\<not> absent (tokenValue args)" "absent (host args)"
    | (d) "\<not> absent (tokenType args)" "\<not> absent (tokenValue args)" "\<not> absent (host args)"
    by blast
  then show ?thesis
  proof cases
    case a
    then have "logoutValidation args = Some (ImperativeError (logoutMessages ! 0))"
      by (simp add: logoutValidation_def toNotBeNullOrUndefined_absent logoutMessages_def)
    with assms have "e = ImperativeError (logoutMessages ! 0)" by simp
    moreover have "logoutMessages ! 0 \<in> set logoutMessages"
      by (rule nth_mem) (simp add: logoutMessages_def)
    ultimately show ?thesis by blast
  next
    case b
    then have "logoutValidation args = Some (ImperativeError (logoutMessages ! 1))"
      by (simp add: logoutValidation_def toNotBeNullOrUndefined_absent logoutMessages_def)
    with assms have "e = ImperativeError (logoutMessages ! 1)" by simp
    moreover have "logoutMessages ! 1 \<in> set logoutMessages"
      by (rule nth_mem) (simp add: logoutMessages_def)
    ultimately show ?thesis by blast
  next
    case c
    then have "logoutValidation args = Some (ImperativeError (logoutMessages ! 2))"
      by (simp add: logoutValidation_def toNotBeNullOrUndefined_absent logoutMessages_def)
    with assms have "e = ImperativeError (logoutMessages ! 2)" by simp
    moreover have "logoutMessages ! 2 \<in> set logoutMessages"
      by (rule nth_mem) (simp add: logoutMessages_def)
    ultimately show ?thesis by blast
  next
    case d
    with assms have "logoutValidation args = Some (ImperativeError (logoutMessages ! 3))"
      by (simp add: logoutValidation_def toNotBeNullOrUndefined_absent logoutMessages_def
          split: if_splits)
    with assms have "e = ImperativeError (logoutMessages ! 3)" by simp
    moreover have "logoutMessages ! 3 \<in> set logoutMessages"
      by (rule nth_mem) (simp add: logoutMessages_def)
    ultimately show ?thesis by blast
  qed
qed

text \<open>
  Claim C4, as the code has it. When the profile lookup, the session-config builder and
  the session constructor have returned, and one of token type, token value, host
  and port is absent from the arguments, \<open>processLogout\<close> throws a validation error
  with one of the four messages. \<open>doLogout\<close> is not called, no save or update request
  is sent and nothing is printed: the only events are the profile lookup
  (\<open>getMeta\<close>), the session-config builder and the session constructor, which come
  before the checks, and \<open>mSession\<close> holds the session built from the arguments.
\<close>

theorem logout_validation_failure:
  assumes "getMeta env (mProfileType env) False = Inr loaded"
    and "createSessCfgFromArgs env args = Inr sessCfg"
    and "newSession env sessCfg = Inr sess"
    and "absent (tokenType args) \<or> absent (tokenValue args) \<or> absent (host args) \<or> absent (port args)"
  shows "\<exists>msg. msg \<in> set logoutMessages
           \<and> processLogout env args st
               = (Some (ImperativeError msg),
                  st\<lparr>mSession := Some sess, events := events st @ logoutPrefix env\<rparr>)"
proof -
  from assms(4) have "logoutValidation args \<noteq> None" by (simp add: logoutValidation_None)
  then obtain e where e: "logoutValidation args = Some e" by auto
  then obtain msg where msg: "e = ImperativeError msg" "msg \<in> set logoutMessages"
    by (auto dest: logoutValidation_Some)
  have "processLogout env args st
        = (Some e, st\<lparr>mSession := Some sess, events := events st @ logoutPrefix env\<rparr>)"
    by (simp add: processLogout_def assms(1-3) e logEvent_def logoutPrefix_def)
  with msg show ?thesis by blast
qed

text \<open>
  Claim C5. When the logout passes validation and \<open>doLogout\<close> succeeds, and the loaded
  profile has no name or the token value of the arguments is not the one stored in
  the loaded profile, \<open>processLogout\<close> returns normally, sends no save request (the
  events are the three calls before the checks, \<open>doLogout\<close> and the success message),
  and leaves \<open>mSession\<close> in basic-credential mode with token type and token value
  cleared.
\<close>

theorem logout_token_mismatch:
  assumes "getMeta env (mProfileType env) False = Inr loaded"
    and "createSessCfgFromArgs env args = Inr sessCfg"
    and "newSession env sessCfg = Inr sess"
    and "\<not> absent (tokenType args)" and "\<not> absent (tokenValue args)"
    and "\<not> absent (host args)" and "\<not> absent (port args)"
    and "doLogout env (sess\<lparr>sessionType := AUTH_TYPE_TOKEN, sessionTokenType := tokenType args,
                            sessionTokenValue := tokenValue args\<rparr>) = Inr sess'"
    and "loadedName loaded = None
         \<or> \<not> strictEquals (tokenValue args) (getProperty (loadedProperties loaded) ''tokenValue'')"
  shows "processLogout env args st
         = (None,
            st\<lparr>mSession := Some (sess'\<lparr>sessionType := AUTH_TYPE_BASIC,
                                        sessionTokenType := JUndefined,
                                        sessionTokenValue := JUndefined\<rparr>),
               events := events st @ logoutPrefix env
                           @ [DoLogout, ConsoleLog ''Logout successful.'']\<rparr>)"
proof -
  have v: "logoutValidation args = None"
    using assms(4-7) by (simp add: logoutValidation_None)
  show ?thesis
    using assms(9)
    by (cases "loadedName loaded")
       (simp_all add: processLogout_def assms(1-3) v assms(8) finishLogout_def logEvent_def
          logoutPrefix_def)
qed

lemma truthy_iff: "truthy v \<longleftrightarrow> v \<notin> {JUndefined, JNull, JBool False, JNum 0, JStr []}"
  by (cases v) (auto simp: truthy_def)

text \<open>
  Claim C6. When the loaded profile has a name and \<open>doLogin\<close> has returned a token:
  with \<open>showToken\<close> set (any value other than \<^verbatim>\<open>undefined\<close>, \<^verbatim>\<open>null\<close>, \<^verbatim>\<open>false\<close>, \<open>0\<close> and
  the empty string), \<open>processLogin\<close> sends no update request, prints the success
  message and then the message that ends with the token value, and returns; with
  \<open>showToken\<close> unset or false it sends exactly one update request, with the profile
  name, the token type of the session, the new token value and merge mode, and prints
  the success message (without the token) when the profile manager accepts the
  request, or throws the profile manager's error. The two cases exclude each other.
\<close>

theorem login_update_or_show:
  assumes "getMeta env (mProfileType env) False = Inr loaded"
    and "loadedName loaded = Some n"
    and "createSessCfgFromArgs env args = Inr sessCfg"
    and "addCredsOrPrompt env sessCfg args True (mDefaultTokenType env) = Inr sessCfgWithCreds"
    and "newSession env sessCfgWithCreds = Inr sess"
    and "doLogin env sess = Inr (token, sess')"
  shows "processLogin env args st =
     (if showToken args \<notin> {JUndefined, JNull, JBool False, JNum 0, JStr []}
      then (None,
            st\<lparr>mSession := Some sess',
               events := events st
                 @ [GetMeta (mProfileType env) False, CreateSessCfgFromArgs, AddCredsOrPrompt,
                    NewSession, DoLogin,
                    ConsoleLog ''Login successful.'',
                    ConsoleLog (''\<newline>Received a token of type = ''
                                @ ToString (sessionTokenType sess')
                                @ ''.\<newline>The following token was stored in your profile:\<newline>''
                                @ token)]\<rparr>)
      else (case profileUpdate env
                   \<lparr>updateName = n,
                    updateArgs = [(''token-type'', sessionTokenType sess'),
                                  (''token-value'', JStr token)],
                    updateMerge = True\<rparr> of
              Inl e \<Rightarrow>
                (Some e,
                 st\<lparr>mSession := Some sess',
                    events := events st
                      @ [GetMeta (mProfileType env) False, CreateSessCfgFromArgs, AddCredsOrPrompt,
                         NewSession, DoLogin,
                         Update \<lparr>updateName = n,
                                 updateArgs = [(''token-type'', sessionTokenType sess'),
                                               (''token-value'', JStr token)],
                                 updateMerge = True\<rparr>]\<rparr>)
            | Inr u \<Rightarrow>
                (None,
                 st\<lparr>mSession := Some sess',
                    events := events st
                      @ [GetMeta (mProfileType env) False, CreateSessCfgFromArgs, AddCredsOrPrompt,
                         NewSession, DoLogin,
                         Update \<lparr>updateName = n,
                                 updateArgs = [(''token-type'', sessionTokenType sess'),
                                               (''token-value'', JStr token)],
                                 updateMerge = True\<rparr>,
                         ConsoleLog ''Login successful.'']\<rparr>)))"
proof (cases "truthy (showToken args)")
  case True
  then have "showToken args \<notin> {JUndefined, JNull, JBool False, JNum 0, JStr []}"
    by (simp add: truthy_iff)
  with True show ?thesis
    by (simp add: processLogin_def assms finishLogin_def logEvent_def tokenMessage_def)
next
  case False
  then have "\<not> showToken args \<notin> {JUndefined, JNull, JBool False, JNum 0, JStr []}"
    by (simp add: truthy_iff)
  with False show ?thesis
    by (cases "profileUpdate env (loginUpdateRequest n sess' token)")
       (simp_all add: processLogin_def assms finishLogin_def logEvent_def loginUpdateRequest_def)
qed

lemma sample_getMeta: "getMeta sampleEnvironment (mProfileType sampleEnvironment) False = Inr sampleLoaded"
  by (simp add: sampleEnvironment_def sampleLoaded_def)

lemma sample_createSessCfg: "createSessCfgFromArgs sampleEnvironment args = Inr (sampleSession args)"
  by (simp add: sampleEnvironment_def)

lemma sample_newSession: "newSession sampleEnvironment cfg = Inr cfg"
  by (simp add: sampleEnvironment_def)

lemma sample_doLogout: "doLogout sampleEnvironment sess = Inr sess"
  by (simp add: sampleEnvironment_def)

lemma sample_addCreds:
  "addCredsOrPrompt sampleEnvironment cfg args True (mDefaultTokenType sampleEnvironment)
     = Inr (cfg\<lparr>sessionType := JStr ''token'', sessionTokenType := JStr ''apimlAuthenticationToken''\<rparr>)"
  by (simp add: sampleEnvironment_def)

lemma sample_doLogin: "doLogin sampleEnvironment sess = Inr (''t2'', sess)"
  by (simp add: sampleEnvironment_def)

lemma sample_update: "profileUpdate sampleEnvironment r = Inr ()"
  by (simp add: sampleEnvironment_def)

lemma sample_prefix: "logoutPrefix sampleEnvironment = [GetMeta ''base'' False, CreateSessCfgFromArgs, NewSession]"
  by (simp add: logoutPrefix_def sampleEnvironment_def)

text \<open>The validation theorem at \<open>sampleEnvironment\<close>, for a logout without port.\<close>

theorem logout_validation_failure_witness:
  "absent (port (logoutArguments (JStr ''t1'') JUndefined))
   \<and> (\<exists>msg. msg \<in> set logoutMessages
         \<and> processLogout sampleEnvironment (logoutArguments (JStr ''t1'') JUndefined) idleState
             = (Some (ImperativeError msg),
                \<lparr>mSession = Some (sampleSession (logoutArguments (JStr ''t1'') JUndefined)),
                 events = [GetMeta ''base'' False, CreateSessCfgFromArgs, NewSession]\<rparr>))"
proof -
  have a: "absent (port (logoutArguments (JStr ''t1'') JUndefined))"
    by (simp add: absent_def logoutArguments_def)
  then have "absent (tokenType (logoutArguments (JStr ''t1'') JUndefined))
      \<or> absent (tokenValue (logoutArguments (JStr ''t1'') JUndefined))
      \<or> absent (host (logoutArguments (JStr ''t1'') JUndefined))
      \<or> absent (port (logoutArguments (JStr ''t1'') JUndefined))"
    by simp
  from logout_validation_failure
    [OF sample_getMeta sample_createSessCfg sample_newSession this, where st = idleState]
  show ?thesis using a by (simp add: idleState_def sample_prefix)
qed

text \<open>
  Claim C4 as stated fails. A logout without port, from the idle state: when the
  validation error is thrown, the profile lookup has been made and \<open>mSession\<close>, unset
  before, holds a session.
\<close>

theorem logout_validation_side_effects_counterexample:
  "mSession idleState = None \<and> events idleState = []
   \<and> processLogout sampleEnvironment (logoutArguments (JStr ''t1'') JUndefined) idleState
       = (Some (ImperativeError ''Port not supplied, but is required for logout.''),
          \<lparr>mSession = Some \<lparr>sessionType = JUndefined, sessionTokenType = JUndefined,
                            sessionTokenValue = JUndefined,
                            sessionOther = [(''hostname'', JStr ''example.com''), (''port'', JUndefined)]\<rparr>,
           events = [GetMeta ''base'' False, CreateSessCfgFromArgs, NewSession]\<rparr>)"
proof -
  have v: "logoutValidation (logoutArguments (JStr ''t1'') JUndefined)
           = Some (ImperativeError ''Port not supplied, but is required for logout.'')"
    by (simp add: logoutValidation_def toNotBeNullOrUndefined_def logoutArguments_def)
  have s: "sampleSession (logoutArguments (JStr ''t1'') JUndefined)
           = \<lparr>sessionType = JUndefined, sessionTokenType = JUndefined,
              sessionTokenValue = JUndefined,
              sessionOther = [(''hostname'', JStr ''example.com''), (''port'', JUndefined)]\<rparr>"
    by (simp add: sampleSession_def logoutArguments_def)
  have m: "mProfileType sampleEnvironment = ''base''" by (simp add: sampleEnvironment_def)
  show ?thesis
    using sample_getMeta
    by (simp add: processLogout_def sample_createSessCfg sample_newSession v s m
        logEvent_def idleState_def)
qed

text \<open>The mismatch theorem at \<open>sampleEnvironment\<close>: the profile holds \<open>t1\<close>, the arguments
  carry another token.\<close>

theorem logout_token_mismatch_witness:
  "\<not> strictEquals (tokenValue (logoutArguments (JStr ''other'') (JNum 7554)))
        (getProperty (loadedProperties sampleLoaded) ''tokenValue'')
   \<and> processLogout sampleEnvironment (logoutArguments (JStr ''other'') (JNum 7554)) idleState
       = (None,
          \<lparr>mSession = Some \<lparr>sessionType = AUTH_TYPE_BASIC, sessionTokenType = JUndefined,
                            sessionTokenValue = JUndefined,
                            sessionOther = [(''hostname'', JStr ''example.com''), (''port'', JNum 7554)]\<rparr>,
           events = [GetMeta ''base'' False, CreateSessCfgFromArgs, NewSession, DoLogout,
                     ConsoleLog ''Logout successful.'']\<rparr>)"
proof -
  let ?args = "logoutArguments (JStr ''other'') (JNum 7554)"
  have p: "\<not> absent (tokenType ?args)" "\<not> absent (tokenValue ?args)"
    "\<not> absent (host ?args)" "\<not> absent (port ?args)"
    by (simp_all add: absent_def logoutArguments_def)
  have ne: "\<not> strictEquals (tokenValue ?args) (getProperty (loadedProperties sampleLoaded) ''tokenValue'')"
    by (simp add: strictEquals_def getProperty_def sampleLoaded_def logoutArguments_def)
  then have mis: "loadedName sampleLoaded = None
         \<or> \<not> strictEquals (tokenValue ?args) (getProperty (loadedProperties sampleLoaded) ''tokenValue'')"
    by simp
  from logout_token_mismatch
    [OF sample_getMeta sample_createSessCfg sample_newSession p sample_doLogout mis,
     where st = idleState]
  show ?thesis
    using ne by (simp add: idleState_def sample_prefix sampleSession_def logoutArguments_def)
qed

text \<open>The login theorem at \<open>sampleEnvironment\<close>, whose service answers with the token
  \<open>t2\<close>: with \<open>showToken\<close> true the token is printed and no update request is sent, with
  \<open>showToken\<close> false one update request carries the token and it is not printed.\<close>

theorem login_update_or_show_witness:
  "loadedName sampleLoaded = Some ''my_base''
   \<and> processLogin sampleEnvironment (loginArguments (JBool True)) idleState
       = (None,
          \<lparr>mSession = Some \<lparr>sessionType = JStr ''token'',
                            sessionTokenType = JStr ''apimlAuthenticationToken'',
                            sessionTokenValue = JUndefined,
                            sessionOther = [(''hostname'', JStr ''example.com''), (''port'', JNum 7554)]\<rparr>,
           events = [GetMeta ''base'' False, CreateSessCfgFromArgs, AddCredsOrPrompt, NewSession,
                     DoLogin,
                     ConsoleLog ''Login successful.'',
                     ConsoleLog ''\<newline>Received a token of type = apimlAuthenticationToken.\<newline>The following token was stored in your profile:\<newline>t2'']\<rparr>)
   \<and> processLogin sampleEnvironment (loginArguments (JBool False)) idleState
       = (None,
          \<lparr>mSession = Some \<lparr>sessionType = JStr ''token'',
                            sessionTokenType = JStr ''apimlAuthenticationToken'',
                            sessionTokenValue = JUndefined,
                            sessionOther = [(''hostname'', JStr ''example.com''), (''port'', JNum 7554)]\<rparr>,
           events = [GetMeta ''base'' False, CreateSessCfgFromArgs, AddCredsOrPrompt, NewSession,
                     DoLogin,
                     Update \<lparr>updateName = ''my_base'',
                             updateArgs = [(''token-type'', JStr ''apimlAuthenticationToken''),
                                           (''token-value'', JStr ''t2'')],
                             updateMerge = True\<rparr>,
                     ConsoleLog ''Login successful.'']\<rparr>)"
proof -
  have n: "loadedName sampleLoaded = Some ''my_base''" by (simp add: sampleLoaded_def)
  have m: "mProfileType sampleEnvironment = ''base''" by (simp add: sampleEnvironment_def)
  have shown: "processLogin sampleEnvironment (loginArguments (JBool True)) idleState
       = (None,
          \<lparr>mSession = Some \<lparr>sessionType = JStr ''token'',
                            sessionTokenType = JStr ''apimlAuthenticationToken'',
                            sessionTokenValue = JUndefined,
                            sessionOther = [(''hostname'', JStr ''example.com''), (''port'', JNum 7554)]\<rparr>,
           events = [GetMeta ''base'' False, CreateSessCfgFromArgs, AddCredsOrPrompt, NewSession,
                     DoLogin,
                     ConsoleLog ''Login successful.'',
                     ConsoleLog ''\<newline>Received a token of type = apimlAuthenticationToken.\<newline>The following token was stored in your profile:\<newline>t2'']\<rparr>)"
    using login_update_or_show
      [OF sample_getMeta n sample_createSessCfg sample_addCreds sample_newSession sample_doLogin,
       where st = idleState and args = "loginArguments (JBool True)"]
    by (simp add: idleState_def m sampleSession_def loginArguments_def)
  have stored: "processLogin sampleEnvironment (loginArguments (JBool False)) idleState
       = (None,
          \<lparr>mSession = Some \<lparr>sessionType = JStr ''token'',
                            sessionTokenType = JStr ''apimlAuthenticationToken'',
                            sessionTokenValue = JUndefined,
                            sessionOther = [(''hostname'', JStr ''example.com''), (''port'', JNum 7554)]\<rparr>,
           events = [GetMeta ''base'' False, CreateSessCfgFromArgs, AddCredsOrPrompt, NewSession,
                     DoLogin,
                     Update \<lparr>updateName = ''my_base'',
                             updateArgs = [(''token-type'', JStr ''apimlAuthenticationToken''),
                                           (''token-value'', JStr ''t2'')],
                             updateMerge = True\<rparr>,
                     ConsoleLog ''Login successful.'']\<rparr>)"
    using login_update_or_show
      [OF sample_getMeta n sample_createSessCfg sample_addCreds sample_newSession sample_doLogin,
       where st = idleState and args = "loginArguments (JBool False)"]
    by (simp add: sample_update idleState_def m sampleSession_def loginArguments_def)
  from n shown stored show ?thesis by blast
qed

end
